theory Spec2Isabelle
  imports Main "HOL-Library.Char_ord" "HOL-Library.List_Lexorder"
begin

section \<open>JavaScript primitives used by the handlers\<close>

text \<open>
  Strings are lists of 8-bit characters: request headers and query strings reach the
  handlers as Latin-1 text. Only the string operations the handlers call are modelled.
\<close>

definition js_whitespace :: "char \<Rightarrow> bool" where
  \<comment> \<open>the characters below 256 that \<open>String.prototype.trim\<close> removes\<close>
  "js_whitespace c =
     (c \<in> set [CHR 0x09, CHR 0x0A, CHR 0x0B, CHR 0x0C, CHR 0x0D, CHR 0x20, CHR 0xA0])"

definition trim :: "string \<Rightarrow> string" where
  "trim s = rev (dropWhile js_whitespace (rev (dropWhile js_whitespace s)))"

fun split_acc :: "char \<Rightarrow> string \<Rightarrow> string \<Rightarrow> string list" where
  "split_acc sep acc [] = [rev acc]"
| "split_acc sep acc (c # cs) =
     (if c = sep then rev acc # split_acc sep [] cs else split_acc sep (c # acc) cs)"

definition js_split :: "char \<Rightarrow> string \<Rightarrow> string list" where
  \<comment> \<open>\<open>s.split(sep)\<close> for a one-character separator; never returns the empty list\<close>
  "js_split sep s = split_acc sep [] s"

definition startsWith :: "string \<Rightarrow> string \<Rightarrow> bool" where
  "startsWith s p = (take (length p) s = p)"

definition index_opt :: "'a list \<Rightarrow> nat \<Rightarrow> 'a option" where
  \<comment> \<open>\<open>xs[i]\<close>: \<open>undefined\<close> (here \<open>None\<close>) out of range\<close>
  "index_opt xs i = (if i < length xs then Some (xs ! i) else None)"

definition truthy :: "string option \<Rightarrow> bool" where
  \<comment> \<open>truthiness of a value that is a string or \<open>undefined\<close>\<close>
  "truthy v = (case v of None \<Rightarrow> False | Some s \<Rightarrow> s \<noteq> [])"

definition js_or :: "string option \<Rightarrow> string option \<Rightarrow> string option" where
  \<comment> \<open>\<open>a || b\<close> on values that are strings or \<open>undefined\<close>\<close>
  "js_or a b = (if truthy a then a else b)"

definition js_or_lit :: "string option \<Rightarrow> string \<Rightarrow> string" where
  \<comment> \<open>\<open>a || 'literal'\<close>: the right operand is a string, so the result is one\<close>
  "js_or_lit a d = (case a of None \<Rightarrow> d | Some s \<Rightarrow> if s \<noteq> [] then s else d)"

fun nat_toString :: "nat \<Rightarrow> string" where
  "nat_toString n =
     (if n < 10 then [''0123456789'' ! n]
      else nat_toString (n div 10) @ [''0123456789'' ! (n mod 10)])"

declare nat_toString.simps [simp del]

definition cookie_field :: "string \<Rightarrow> string \<Rightarrow> string option" where
  \<comment> \<open>\<open>cookies.split(';').find(c => c.trim().startsWith(name + '='))?.split('=')[1]\<close>\<close>
  "cookie_field name cookies =
     (case find (\<lambda>c. startsWith (trim c) (name @ ''='')) (js_split CHR '';'' cookies) of
        None \<Rightarrow> None
      | Some c \<Rightarrow> index_opt (js_split CHR ''='' c) 1)"

section \<open>Requests, responses and the data they carry\<close>

text \<open>A query parameter is a string, or an array of strings when the key is repeated.\<close>

datatype qvalue = QStr string | QArr "string list"

type_synonym query_params = "(string \<times> qvalue) list"
  \<comment> \<open>the entries of \<open>req.query\<close>; \<open>map_of\<close> reads a key, \<open>None\<close> is \<open>undefined\<close>\<close>

record InventoryUpdate =
  inventoryItemId :: string
  locationId :: string
  quantity :: int

record api_request =
  req_method :: string
  cookie :: "string option"
    \<comment> \<open>\<open>req.headers.cookie\<close>\<close>
  query :: query_params
  updates :: "InventoryUpdate list option"
    \<comment> \<open>\<open>req.body.updates\<close>; \<open>None\<close> when it is missing or not an array\<close>

text \<open>
  The record the Reader returns for one variant (the \<open>Product\<close> interface of the page).
  A stock quantity is an integer, as the \<open>Int\<close> field of the upstream is.
\<close>

record Product =
  variantId :: string
    \<comment> \<open>the field \<open>id\<close>\<close>
  productId :: string
  productTitle :: string
  variantTitle :: "string option"
  sku :: string
  image :: "string option"
  itemId :: string
    \<comment> \<open>the field \<open>inventoryItemId\<close>\<close>
  inventoryLevelId :: string
  currentStock :: int

record batch_results =
  success :: nat
  failed :: nat
  errors :: "string list"

datatype json_body =
    ErrorBody string
  | NeedsAuthBody string
      \<comment> \<open>\<open>{error, needsAuth: true}\<close>\<close>
  | ResultsBody batch_results
  | ProductsBody "Product list"

record http_response =
  status :: nat
  body :: json_body

section \<open>Inventory Writer: the update-inventory handler\<close>

record auth =
  accessToken :: "string option"
  shop :: string

definition getAuthFromCookies :: "string option \<Rightarrow> string option \<Rightarrow> string option \<Rightarrow> auth" where
  \<comment> \<open>arguments: the Cookie header, \<open>process.env.SHOPIFY_ACCESS_TOKEN\<close>, \<open>process.env.SHOP\<close>\<close>
  "getAuthFromCookies cookie_header env_token env_shop =
     (let cookies = js_or_lit cookie_header [];
          DEFAULT_SHOP = js_or_lit env_shop ''panel-company.myshopify.com''
      in \<lparr> accessToken = js_or (cookie_field ''shopify_access_token'' cookies) env_token,
           shop = js_or_lit (cookie_field ''shopify_shop'' cookies) DEFAULT_SHOP \<rparr>)"

text \<open>One outbound GraphQL mutation: the URL, the token header and the three variables.\<close>

record mutation_request =
  url :: string
  token :: string
  item :: string
  location :: string
  qty :: int

record gql_error =
  message :: "string option"

record mutation_data =
  data_errors :: "gql_error list option"
    \<comment> \<open>\<open>data.errors\<close>; \<open>None\<close> when absent or null; an array, even empty, is truthy\<close>
  userErrors :: "gql_error list option"
    \<comment> \<open>\<open>data.data?.inventorySetQuantities?.userErrors\<close>; \<open>None\<close> when any link is missing\<close>

datatype json_result =
    JsonThrows string
      \<comment> \<open>\<open>response.json()\<close> rejects, or gives null so that \<open>data.errors\<close> throws\<close>
  | Json mutation_data

datatype fetch_result =
    FetchThrows string
      \<comment> \<open>the promise of \<open>fetch\<close> rejects (no HTTP response at all)\<close>
  | Response nat json_result
      \<comment> \<open>HTTP status and what \<open>response.json()\<close> gives\<close>

definition response_ok :: "nat \<Rightarrow> bool" where
  "response_ok st = (200 \<le> st \<and> st \<le> 299)"

type_synonym 'w server = "'w \<Rightarrow> mutation_request \<Rightarrow> fetch_result \<times> 'w"

datatype event = Fetch mutation_request | Delay nat

record 'w loop_state =
  results :: batch_results
  trace :: "event list"
  world :: 'w

definition first_message :: "gql_error list option \<Rightarrow> string option" where
  \<comment> \<open>\<open>xs?.[0]?.message\<close>\<close>
  "first_message xs = (case xs of Some (e # _) \<Rightarrow> message e | _ \<Rightarrow> None)"

definition has_errors :: "mutation_data \<Rightarrow> bool" where
  \<comment> \<open>\<open>data.errors || data.data?.inventorySetQuantities?.userErrors?.length > 0\<close>\<close>
  "has_errors d =
     (data_errors d \<noteq> None \<or> (case userErrors d of None \<Rightarrow> False | Some es \<Rightarrow> length es > 0))"

definition errorMsg :: "mutation_data \<Rightarrow> string" where
  "errorMsg d =
     js_or_lit (js_or (first_message (data_errors d)) (first_message (userErrors d)))
       ''Unknown error''"

definition mk_request :: "string \<Rightarrow> string \<Rightarrow> InventoryUpdate \<Rightarrow> mutation_request" where
  "mk_request SHOP ACCESS_TOKEN update =
     \<lparr> url = ''https://'' @ SHOP @ ''/admin/api/2024-01/graphql.json'',
       token = ACCESS_TOKEN,
       item = inventoryItemId update,
       location = ''gid://shopify/Location/'' @ locationId update,
       qty = quantity update \<rparr>"

definition count_failed :: "string \<Rightarrow> 'w loop_state \<Rightarrow> 'w loop_state" where
  \<comment> \<open>\<open>results.failed++; results.errors.push(msg)\<close>\<close>
  "count_failed msg st =
     st\<lparr> results := (results st)\<lparr> failed := failed (results st) + 1,
                                  errors := errors (results st) @ [msg] \<rparr> \<rparr>"

definition count_success :: "'w loop_state \<Rightarrow> 'w loop_state" where
  "count_success st = st\<lparr> results := (results st)\<lparr> success := success (results st) + 1 \<rparr> \<rparr>"

text \<open>
  The \<open>for (const update of updates)\<close> loop. The second component of the result is the
  message of the exception that left the loop, if one did.
\<close>

fun process_updates ::
  "'w server \<Rightarrow> string \<Rightarrow> string \<Rightarrow> InventoryUpdate list \<Rightarrow> 'w loop_state
     \<Rightarrow> 'w loop_state \<times> string option" where
  "process_updates srv SHOP ACCESS_TOKEN [] st = (st, None)"
| "process_updates srv SHOP ACCESS_TOKEN (update # rest) st =
     (let req = mk_request SHOP ACCESS_TOKEN update;
          (response, w) = srv (world st) req;
          st1 = st\<lparr> trace := trace st @ [Fetch req], world := w \<rparr>
      in case response of
           FetchThrows e \<Rightarrow> (st1, Some e)
         | Response http_status js \<Rightarrow>
             if \<not> response_ok http_status then
               process_updates srv SHOP ACCESS_TOKEN rest
                 (count_failed (''API error for '' @ inventoryItemId update @ '': ''
                                  @ nat_toString http_status) st1)
             else
               (case js of
                  JsonThrows e \<Rightarrow> (st1, Some e)
                | Json data \<Rightarrow>
                    let st2 = (if has_errors data
                               then count_failed (''Failed '' @ inventoryItemId update @ '': ''
                                                    @ errorMsg data) st1
                               else count_success st1);
                        st3 = st2\<lparr> trace := trace st2 @ [Delay 100] \<rparr>
                    in process_updates srv SHOP ACCESS_TOKEN rest st3))"

definition update_handler ::
  "'w server \<Rightarrow> string option \<Rightarrow> string option \<Rightarrow> api_request \<Rightarrow> 'w
     \<Rightarrow> http_response \<times> event list \<times> 'w" where
  "update_handler srv env_token env_shop req w =
     (if req_method req \<noteq> ''POST'' then
        (\<lparr> status = 405, body = ErrorBody ''Method not allowed'' \<rparr>, [], w)
      else
        let a = getAuthFromCookies (cookie req) env_token env_shop in
        case (if truthy (accessToken a) then accessToken a else None) of
          None \<Rightarrow> (\<lparr> status = 401, body = NeedsAuthBody ''Not authenticated'' \<rparr>, [], w)
        | Some ACCESS_TOKEN \<Rightarrow>
          (case updates req of
             None \<Rightarrow> (\<lparr> status = 400, body = ErrorBody ''No updates provided'' \<rparr>, [], w)
           | Some [] \<Rightarrow> (\<lparr> status = 400, body = ErrorBody ''No updates provided'' \<rparr>, [], w)
           | Some ups \<Rightarrow>
               (case process_updates srv (shop a) ACCESS_TOKEN ups
                       \<lparr> results = \<lparr> success = 0, failed = 0, errors = [] \<rparr>,
                         trace = [], world = w \<rparr> of
                  (st, None) \<Rightarrow>
                    (\<lparr> status = 200, body = ResultsBody (results st) \<rparr>, trace st, world st)
                | (st, Some e) \<Rightarrow>
                    (\<lparr> status = 500, body = ErrorBody e \<rparr>, trace st, world st))))"

subsection \<open>Observations on a run of the writer\<close>

text \<open>The outbound calls of a trace, in the order they were made.\<close>

fun fetches :: "event list \<Rightarrow> mutation_request list" where
  "fetches [] = []"
| "fetches (Fetch r # es) = r # fetches es"
| "fetches (Delay d # es) = fetches es"

text \<open>
  A reply leaves the loop through the handler's \<open>catch\<close> when \<open>fetch\<close> rejects, or when the
  status is 2xx and the body cannot be read as a value with properties: \<open>response.json()\<close>
  rejects, or it gives null and \<open>data.errors\<close> throws.
\<close>

fun throws :: "fetch_result \<Rightarrow> bool" where
  "throws (FetchThrows e) = True"
| "throws (Response st (JsonThrows e)) = response_ok st"
| "throws (Response st (Json d)) = False"

text \<open>The message of the exception a reply raises, and of the first one in a sequence.\<close>

fun thrown :: "fetch_result \<Rightarrow> string option" where
  "thrown (FetchThrows e) = Some e"
| "thrown (Response st (JsonThrows e)) = (if response_ok st then Some e else None)"
| "thrown (Response st (Json d)) = None"

fun first_thrown :: "fetch_result list \<Rightarrow> string option" where
  "first_thrown [] = None"
| "first_thrown (x # xs) = (case thrown x of Some e \<Rightarrow> Some e | None \<Rightarrow> first_thrown xs)"

text \<open>What the server answers to a sequence of requests, threading its own state.\<close>

fun replies :: "'w server \<Rightarrow> 'w \<Rightarrow> mutation_request list \<Rightarrow> fetch_result list" where
  "replies srv w [] = []"
| "replies srv w (r # rs) = (let (x, w') = srv w r in x # replies srv w' rs)"

text \<open>The messages one update adds to \<open>results.errors\<close>, by the reply it got.\<close>

fun error_messages :: "InventoryUpdate \<Rightarrow> fetch_result \<Rightarrow> string list" where
  "error_messages u (FetchThrows e) = []"
| "error_messages u (Response st js) =
     (if \<not> response_ok st then [''API error for '' @ inventoryItemId u @ '': '' @ nat_toString st]
      else case js of
             JsonThrows e \<Rightarrow> []
           | Json d \<Rightarrow> if has_errors d then [''Failed '' @ inventoryItemId u @ '': '' @ errorMsg d] else [])"


section \<open>Inventory Reader: the products handler\<close>

text \<open>The nodes of the GraphQL reply, with the fields the handler reads.\<close>

record level_node =
  level_id :: string
  available :: "int option"
    \<comment> \<open>\<open>None\<close> when the field is null or absent\<close>

record item_node =
  item_id :: string
  inventoryLevel :: "level_node option"
    \<comment> \<open>null when the item is not stocked at the location asked for\<close>

record variant_node =
  variant_id :: string
  variant_sku :: "string option"
  variant_title :: string
  inventoryItem :: "item_node option"

record product_node =
  product_id :: string
  product_title :: string
  featuredImage_url :: "string option"
    \<comment> \<open>\<open>product.featuredImage?.url\<close>\<close>
  variants :: "variant_node list"

record products_data =
  query_errors :: "gql_error list option"
    \<comment> \<open>\<open>data.errors\<close>\<close>
  product_edges :: "string + product_node list"
    \<comment> \<open>\<open>data.data.products.edges\<close>; \<open>Inl\<close> the message of the TypeError when a link is missing\<close>

datatype products_json = ProductsJsonThrows string | ProductsJson products_data

datatype products_reply =
    QueryThrows string
  | QueryResponse nat products_json

record products_query =
  query_url :: string
  query_token :: string
  query_location :: string

text \<open>
  \<open>Array.prototype.sort\<close> with a comparator: a stable sort. For a consistent comparator the
  stable sorted arrangement is unique, so insertion from the right computes it.
\<close>

fun insert_by :: "('a \<Rightarrow> 'a \<Rightarrow> int) \<Rightarrow> 'a \<Rightarrow> 'a list \<Rightarrow> 'a list" where
  "insert_by cmp x [] = [x]"
| "insert_by cmp x (y # ys) = (if cmp x y \<le> 0 then x # y # ys else y # insert_by cmp x ys)"

definition array_sort :: "('a \<Rightarrow> 'a \<Rightarrow> int) \<Rightarrow> 'a list \<Rightarrow> 'a list" where
  "array_sort cmp xs = foldr (insert_by cmp) xs []"

definition format_variant :: "product_node \<Rightarrow> variant_node \<Rightarrow> Product list" where
  \<comment> \<open>the body of the inner loop: what one variant pushes\<close>
  "format_variant product variant =
     (case inventoryItem variant of
        None \<Rightarrow> []
      | Some it \<Rightarrow>
          (case inventoryLevel it of
             None \<Rightarrow> []
           | Some level \<Rightarrow>
               [\<lparr> variantId = variant_id variant,
                  productId = product_id product,
                  productTitle = product_title product,
                  variantTitle = (if variant_title variant \<noteq> ''Default Title''
                                  then Some (variant_title variant) else None),
                  sku = js_or_lit (variant_sku variant) ''No SKU'',
                  image = js_or (featuredImage_url product) None,
                  itemId = item_id it,
                  inventoryLevelId = level_id level,
                  currentStock = (case available level of None \<Rightarrow> 0 | Some n \<Rightarrow> n) \<rparr>]))"

definition format_products :: "product_node list \<Rightarrow> Product list" where
  \<comment> \<open>the two nested \<open>for\<close> loops\<close>
  "format_products edges =
     concat (map (\<lambda>product. concat (map (format_variant product) (variants product))) edges)"

definition products_query_for :: "string option \<Rightarrow> string \<Rightarrow> string \<Rightarrow> products_query" where
  \<comment> \<open>the one outbound query: \<open>SHOP\<close> is \<open>process.env.SHOP || 'panel-company.myshopify.com'\<close>\<close>
  "products_query_for env_shop ACCESS_TOKEN loc =
     \<lparr> query_url = ''https://'' @ js_or_lit env_shop ''panel-company.myshopify.com''
                     @ ''/admin/api/2024-01/graphql.json'',
       query_token = ACCESS_TOKEN,
       query_location = ''gid://shopify/Location/'' @ loc \<rparr>"

definition products_handler ::
  "(string \<Rightarrow> string \<Rightarrow> int) \<Rightarrow> (products_query \<Rightarrow> products_reply) \<Rightarrow> string option
     \<Rightarrow> string option \<Rightarrow> api_request \<Rightarrow> http_response" where
  \<comment> \<open>arguments: \<open>localeCompare\<close>, the upstream, \<open>process.env.SHOPIFY_ACCESS_TOKEN\<close>,
     \<open>process.env.SHOP\<close>, the request\<close>
  "products_handler localeCompare upstream env_token env_shop req =
     (if req_method req \<noteq> ''GET'' then
        \<lparr> status = 405, body = ErrorBody ''Method not allowed'' \<rparr>
      else
        case map_of (query req) ''locationId'' of
          None \<Rightarrow> \<lparr> status = 400, body = ErrorBody ''Location ID is required'' \<rparr>
        | Some (QArr _) \<Rightarrow> \<lparr> status = 400, body = ErrorBody ''Location ID is required'' \<rparr>
        | Some (QStr loc) \<Rightarrow>
            if loc = [] then
              \<lparr> status = 400, body = ErrorBody ''Location ID is required'' \<rparr>
            else
              (case (if truthy env_token then env_token else None) of
                 None \<Rightarrow> \<lparr> status = 500, body = ErrorBody ''Access token not configured'' \<rparr>
               | Some ACCESS_TOKEN \<Rightarrow>
                   (case upstream (products_query_for env_shop ACCESS_TOKEN loc) of
                      QueryThrows e \<Rightarrow> \<lparr> status = 500, body = ErrorBody e \<rparr>
                    | QueryResponse http_status js \<Rightarrow>
                        if \<not> response_ok http_status then
                          \<lparr> status = 500,
                            body = ErrorBody (''Shopify API error: '' @ nat_toString http_status) \<rparr>
                        else
                          (case js of
                             ProductsJsonThrows e \<Rightarrow> \<lparr> status = 500, body = ErrorBody e \<rparr>
                           | ProductsJson data \<Rightarrow>
                               if query_errors data \<noteq> None then
                                 \<lparr> status = 500,
                                   body = ErrorBody (js_or_lit (first_message (query_errors data))
                                                       ''GraphQL error'') \<rparr>
                               else
                                 (case product_edges data of
                                    Inl e \<Rightarrow> \<lparr> status = 500, body = ErrorBody e \<rparr>
                                  | Inr edges \<Rightarrow>
                                      \<lparr> status = 200,
                                        body = ProductsBody
                                          (array_sort (\<lambda>a b. localeCompare (sku a) (sku b))
                                             (format_products edges)) \<rparr>)))))"

subsection \<open>Observations on a reply and on the output\<close>

definition products_of :: "http_response \<Rightarrow> Product list" where
  \<comment> \<open>the \<open>products\<close> array of an answer, empty when the answer carries none\<close>
  "products_of r = (case body r of ProductsBody ps \<Rightarrow> ps | _ \<Rightarrow> [])"

definition level_of :: "variant_node \<Rightarrow> level_node option" where
  \<comment> \<open>\<open>variant.inventoryItem?.inventoryLevel\<close>\<close>
  "level_of v = (case inventoryItem v of None \<Rightarrow> None | Some it \<Rightarrow> inventoryLevel it)"

definition has_level :: "variant_node \<Rightarrow> bool" where
  "has_level v = (case level_of v of None \<Rightarrow> False | Some lv \<Rightarrow> True)"

definition upstream_edges :: "products_reply \<Rightarrow> product_node list option" where
  \<comment> \<open>the product list of a reply that the handler accepts\<close>
  "upstream_edges reply =
     (case reply of
        QueryThrows e \<Rightarrow> None
      | QueryResponse st js \<Rightarrow>
          (case js of
             ProductsJsonThrows e \<Rightarrow> None
           | ProductsJson d \<Rightarrow>
               if response_ok st \<and> query_errors d = None
               then (case product_edges d of Inl e \<Rightarrow> None | Inr edges \<Rightarrow> Some edges)
               else None))"

definition stock_of :: "level_node \<Rightarrow> int" where
  \<comment> \<open>\<open>inventoryLevel.available || 0\<close>\<close>
  "stock_of lv = (case available lv of None \<Rightarrow> 0 | Some n \<Rightarrow> n)"

definition nonneg_levels :: "product_node list \<Rightarrow> bool" where
  "nonneg_levels edges =
     list_all (\<lambda>p. list_all (\<lambda>v. case level_of v of
                                       None \<Rightarrow> True
                                     | Some lv \<Rightarrow> (case available lv of None \<Rightarrow> True | Some n \<Rightarrow> 0 \<le> n))
                          (variants p)) edges"

definition consistent :: "('a \<Rightarrow> 'a \<Rightarrow> int) \<Rightarrow> bool" where
  "consistent cmp = ((\<forall>a b. cmp a b \<le> 0 \<or> cmp b a \<le> 0) \<and>
                     (\<forall>a b c. cmp a b \<le> 0 \<and> cmp b c \<le> 0 \<longrightarrow> cmp a c \<le> 0))"

definition tied :: "('a \<Rightarrow> 'a \<Rightarrow> int) \<Rightarrow> 'a \<Rightarrow> 'a \<Rightarrow> bool" where
  "tied cmp a b = (cmp a b \<le> 0 \<and> cmp b a \<le> 0)"

section \<open>Authorization callback\<close>

definition qtruthy :: "qvalue option \<Rightarrow> bool" where
  \<comment> \<open>truthiness of a query value: \<open>undefined\<close> and the empty string are falsy, an array is truthy\<close>
  "qtruthy v = (case v of None \<Rightarrow> False | Some (QStr s) \<Rightarrow> s \<noteq> [] | Some (QArr xs) \<Rightarrow> True)"

definition qpresent :: "qvalue option \<Rightarrow> qvalue option" where
  \<comment> \<open>a query value that passed the test \<open>!v\<close>\<close>
  "qpresent v = (if qtruthy v then v else None)"

definition present :: "string option \<Rightarrow> string option" where
  \<comment> \<open>an environment value that passed the test \<open>!v\<close>\<close>
  "present v = (if truthy v then v else None)"

fun join :: "string \<Rightarrow> string list \<Rightarrow> string" where
  "join sep [] = []"
| "join sep [x] = x"
| "join sep (x # y # ys) = x @ sep @ join sep (y # ys)"

definition render :: "qvalue option \<Rightarrow> string" where
  \<comment> \<open>a value inside a template literal: an array is joined with commas\<close>
  "render v = (case v of None \<Rightarrow> ''undefined'' | Some (QStr s) \<Rightarrow> s | Some (QArr xs) \<Rightarrow> join '','' xs)"

definition strict_eq :: "qvalue option \<Rightarrow> string option \<Rightarrow> bool" where
  \<comment> \<open>\<open>a === b\<close> for a query value and a string or \<open>undefined\<close>\<close>
  "strict_eq a b =
     (case a of
        None \<Rightarrow> b = None
      | Some (QStr s) \<Rightarrow> b = Some s
      | Some (QArr xs) \<Rightarrow> False)"

definition hmac_message :: "query_params \<Rightarrow> string" where
  \<comment> \<open>\<open>Object.keys(queryParams).sort().map(key => `${key}=${queryParams[key]}`).join('&')\<close>
     after \<open>delete queryParams.hmac\<close>; the default sort compares code units\<close>
  "hmac_message q =
     (let queryParams = filter (\<lambda>(k, v). k \<noteq> ''hmac'') q
      in join ''&'' (map (\<lambda>key. key @ ''='' @ render (map_of queryParams key))
                         (sort (map fst queryParams))))"

record token_request =
  token_url :: string
  client_id :: string
  client_secret :: string
  auth_code :: qvalue

datatype token_body =
    BodyUnreadable string
      \<comment> \<open>reading the body rejects: both \<open>text()\<close> and \<open>json()\<close> throw\<close>
  | BodyNotJson string
      \<comment> \<open>\<open>json()\<close> throws, or gives null so that \<open>tokenData.access_token\<close> throws\<close>
  | BodyJson "string option"
      \<comment> \<open>the \<open>access_token\<close> field of the parsed object\<close>

datatype token_reply =
    ExchangeThrows string
  | ExchangeResponse nat token_body

type_synonym 'w exchange = "'w \<Rightarrow> token_request \<Rightarrow> token_reply \<times> 'w"

datatype callback_result =
    Answered http_response
  | Redirected "string list" string
      \<comment> \<open>the \<open>Set-Cookie\<close> headers and the target of \<open>res.redirect\<close>\<close>

definition reject :: "nat \<Rightarrow> string \<Rightarrow> 'w \<Rightarrow> callback_result \<times> token_request list \<times> 'w" where
  \<comment> \<open>\<open>return res.status(n).json({ error })\<close> before any outbound call\<close>
  "reject n e w = (Answered \<lparr> status = n, body = ErrorBody e \<rparr>, [], w)"

definition exchange_code ::
  "'w exchange \<Rightarrow> string \<Rightarrow> string \<Rightarrow> qvalue \<Rightarrow> qvalue \<Rightarrow> 'w
     \<Rightarrow> callback_result \<times> token_request list \<times> 'w" where
  \<comment> \<open>the \<open>try\<close> block\<close>
  "exchange_code exch key secret code shp w =
     (let treq = \<lparr> token_url = ''https://'' @ render (Some shp) @ ''/admin/oauth/access_token'',
                    client_id = key, client_secret = secret, auth_code = code \<rparr>;
          (reply, w1) = exch w treq;
          failed_auth = Answered \<lparr> status = 500, body = ErrorBody ''Authentication failed'' \<rparr>
      in case reply of
           ExchangeThrows e \<Rightarrow> (failed_auth, [treq], w1)
         | ExchangeResponse http_status b \<Rightarrow>
             if \<not> response_ok http_status then
               (case b of
                  BodyUnreadable e \<Rightarrow> (failed_auth, [treq], w1)
                | _ \<Rightarrow> (Answered \<lparr> status = 500, body = ErrorBody ''Failed to get access token'' \<rparr>,
                        [treq], w1))
             else
               (case b of
                  BodyUnreadable e \<Rightarrow> (failed_auth, [treq], w1)
                | BodyNotJson e \<Rightarrow> (failed_auth, [treq], w1)
                | BodyJson tok \<Rightarrow>
                    (Redirected
                       [''shopify_access_token=''
                          @ (case tok of None \<Rightarrow> ''undefined'' | Some t \<Rightarrow> t)
                          @ ''; Path=/; HttpOnly; Secure; SameSite=Lax; Max-Age=31536000'',
                        ''shopify_shop='' @ render (Some shp)
                          @ ''; Path=/; HttpOnly; Secure; SameSite=Lax; Max-Age=31536000'',
                        ''shopify_nonce=; Path=/; HttpOnly; Secure; SameSite=Lax; Max-Age=0'']
                       ''/'',
                     [treq], w1)))"

definition callback_handler ::
  "(string \<Rightarrow> string \<Rightarrow> string) \<Rightarrow> 'w exchange \<Rightarrow> string option \<Rightarrow> string option
     \<Rightarrow> api_request \<Rightarrow> 'w \<Rightarrow> callback_result \<times> token_request list \<times> 'w" where
  \<comment> \<open>arguments: HMAC-SHA256 as hex (key, message), the token endpoint,
     \<open>process.env.SHOPIFY_API_KEY\<close>, \<open>process.env.SHOPIFY_API_SECRET\<close>, the request\<close>
  "callback_handler hmac_sha256 exch API_KEY API_SECRET req w =
     (let q_state = map_of (query req) ''state'';
          q_hmac = map_of (query req) ''hmac'';
          missing = reject 400 ''Missing required parameters'' w;
          unconfigured = reject 500 ''API credentials not configured'' w
      in case qpresent (map_of (query req) ''code'') of None \<Rightarrow> missing | Some code \<Rightarrow>
         case qpresent (map_of (query req) ''shop'') of None \<Rightarrow> missing | Some shp \<Rightarrow>
         if \<not> qtruthy q_state then missing else
         case present API_KEY of None \<Rightarrow> unconfigured | Some key \<Rightarrow>
         case present API_SECRET of None \<Rightarrow> unconfigured | Some secret \<Rightarrow>
           let cookies = js_or_lit (cookie req) [];
               storedNonce = cookie_field ''shopify_nonce'' cookies
           in if \<not> strict_eq q_state storedNonce then
                reject 403 ''Invalid state parameter'' w
              else if qtruthy q_hmac
                      \<and> \<not> strict_eq q_hmac (Some (hmac_sha256 secret (hmac_message (query req))))
              then reject 403 ''Invalid HMAC'' w
              else exchange_code exch key secret code shp w)"

subsection \<open>Observations on a callback\<close>

definition well_formed_callback :: "string option \<Rightarrow> string option \<Rightarrow> api_request \<Rightarrow> bool" where
  \<comment> \<open>the request passes the handler's first two guards\<close>
  "well_formed_callback API_KEY API_SECRET req =
     (qtruthy (map_of (query req) ''code'') \<and> qtruthy (map_of (query req) ''shop'') \<and>
      qtruthy (map_of (query req) ''state'') \<and> truthy API_KEY \<and> truthy API_SECRET)"

definition storedNonce_of :: "api_request \<Rightarrow> string option" where
  "storedNonce_of req = cookie_field ''shopify_nonce'' (js_or_lit (cookie req) [])"

definition signed_message :: "query_params \<Rightarrow> string" where
  \<comment> \<open>the specification's wording: the parameters other than \<open>hmac\<close>, sorted by key, each
     written \<open>key=value\<close>, joined with \<open>&\<close>\<close>
  "signed_message q =
     join ''&'' (map (\<lambda>(k, v). k @ ''='' @ render (Some v))
                     (sort_key fst (filter (\<lambda>(k, v). k \<noteq> ''hmac'') q)))"

section \<open>Diff computation on the page\<close>

text \<open>
  The page calls two built-ins on numbers, \<open>Number.prototype.toString\<close> and
  \<open>parseInt\<close>. Both work on doubles; they are parameters of the diff, \<open>toString\<close> from the
  integer a record holds to its text and \<open>parseInt\<close> from a text to a Number.
\<close>

datatype js_number = NaN | Num int | PlusInfinity | MinusInfinity
  \<comment> \<open>what \<open>parseInt\<close> can return: every finite result is an integer\<close>

definition is_digit :: "char \<Rightarrow> bool" where
  \<comment> \<open>the class \<open>\d\<close>\<close>
  "is_digit c = (CHR ''0'' \<le> c \<and> c \<le> CHR ''9'')"

record StockChange =
  change_item :: string
    \<comment> \<open>the field \<open>inventoryItemId\<close>\<close>
  change_sku :: string
  oldValue :: int
  newValue :: js_number

type_synonym stock_values = "string \<rightharpoonup> string"
  \<comment> \<open>\<open>Record<string, string>\<close>, keyed by \<open>product.id\<close>\<close>

definition fetched_values :: "(int \<Rightarrow> string) \<Rightarrow> Product list \<Rightarrow> stock_values" where
  \<comment> \<open>\<open>initialValues\<close> of \<open>fetchProducts\<close>: every record's stock as text, a later record
     of the same id overwriting an earlier one\<close>
  "fetched_values toString ps = map_of (rev (map (\<lambda>p. (variantId p, toString (currentStock p))) ps))"

definition handleStockChange :: "string \<Rightarrow> string \<Rightarrow> stock_values \<Rightarrow> stock_values" where
  \<comment> \<open>the state after the event; the test is \<open>value !== '' && !/^\d*$/.test(value)\<close>\<close>
  "handleStockChange pid v stockValues =
     (if v \<noteq> [] \<and> \<not> list_all is_digit v then stockValues else stockValues(pid \<mapsto> v))"

definition push_change ::
  "(int \<Rightarrow> string) \<Rightarrow> (string \<Rightarrow> js_number) \<Rightarrow> stock_values \<Rightarrow> StockChange list \<Rightarrow> Product
     \<Rightarrow> StockChange list" where
  \<comment> \<open>the body of \<open>products.forEach\<close>, on the array built so far\<close>
  "push_change toString parseInt stockValues changedItems product =
     (let currentValue = stockValues (variantId product);
          originalValue = toString (currentStock product)
      in case currentValue of
           None \<Rightarrow> changedItems
         | Some cv \<Rightarrow>
             if cv \<noteq> originalValue \<and> cv \<noteq> [] then
               changedItems @ [\<lparr> change_item = itemId product, change_sku = sku product,
                                  oldValue = currentStock product, newValue = parseInt cv \<rparr>]
             else changedItems)"

definition changes ::
  "(int \<Rightarrow> string) \<Rightarrow> (string \<Rightarrow> js_number) \<Rightarrow> Product list \<Rightarrow> stock_values \<Rightarrow> StockChange list" where
  "changes toString parseInt products stockValues =
     foldl (push_change toString parseInt stockValues) [] products"

subsection \<open>The built-ins on integers\<close>

text \<open>
  Up to \<open>2^53\<close> every integer is a double, \<open>toString\<close> prints its decimal numeral and
  \<open>parseInt\<close> reads a decimal numeral exactly. That is all the properties below assume of
  the two built-ins.
\<close>

definition decimal_on_safe :: "(int \<Rightarrow> string) \<Rightarrow> (string \<Rightarrow> js_number) \<Rightarrow> bool" where
  "decimal_on_safe toString parseInt =
     ((\<forall>n. 0 \<le> n \<and> n \<le> 2 ^ 53 \<longrightarrow> toString n = nat_toString (nat n)) \<and>
      (\<forall>m. int m \<le> 2 ^ 53 \<longrightarrow> parseInt (nat_toString m) = Num (int m)))"

text \<open>
  The two functions used where a property is evaluated. \<open>decimal_text\<close> is the decimal
  numeral, which \<open>toString\<close> prints for an integer of magnitude below \<open>10^21\<close>.
  \<open>parseInt10\<close> is \<open>parseInt(s, 10)\<close>: leading white space, an optional sign, the longest
  run of digits read as a decimal numeral and rounded to the nearest double, ties to
  even; no digit gives NaN.
\<close>

definition decimal_text :: "int \<Rightarrow> string" where
  "decimal_text i = (if i < 0 then CHR ''-'' # nat_toString (nat (- i)) else nat_toString (nat i))"

definition digit_value :: "char \<Rightarrow> nat" where
  "digit_value c = of_char c - 48"

fun bit_length :: "nat \<Rightarrow> nat" where
  "bit_length n = (if n = 0 then 0 else Suc (bit_length (n div 2)))"

declare bit_length.simps [simp del]

definition nearest_double :: "nat \<Rightarrow> nat option" where
  \<comment> \<open>the double nearest to a natural number; \<open>None\<close> is Infinity\<close>
  "nearest_double n =
     (if n \<le> 2 ^ 53 then Some n
      else
        let sh = bit_length n - 53;
            q = n div 2 ^ sh;
            r = n mod 2 ^ sh;
            half = 2 ^ (sh - 1);
            q' = (if half < r \<or> (r = half \<and> odd q) then q + 1 else q)
        in if 2 ^ 1024 \<le> q' * 2 ^ sh then None else Some (q' * 2 ^ sh))"

definition parseInt10 :: "string \<Rightarrow> js_number" where
  "parseInt10 s =
     (let t = dropWhile js_whitespace s;
          (neg, r) = (case t of
                        [] \<Rightarrow> (False, [])
                      | c # cs \<Rightarrow> if c = CHR ''-'' then (True, cs)
                                   else if c = CHR ''+'' then (False, cs) else (False, t));
          ds = takeWhile is_digit r
      in if ds = [] then NaN
         else case nearest_double (foldl (\<lambda>n c. 10 * n + digit_value c) 0 ds) of
                None \<Rightarrow> if neg then MinusInfinity else PlusInfinity
              | Some v \<Rightarrow> Num (if neg then - int v else int v))"

section \<open>Example requests, servers and replies\<close>

definition update_A :: InventoryUpdate where
  "update_A = \<lparr> inventoryItemId = ''A'', locationId = ''1'', quantity = 5 \<rparr>"

definition update_B :: InventoryUpdate where
  "update_B = \<lparr> inventoryItemId = ''B'', locationId = ''1'', quantity = 7 \<rparr>"

definition post_AB :: api_request where
  "post_AB = \<lparr> req_method = ''POST'', cookie = Some ''shopify_access_token=tok; shopify_shop=s.example'', query = [],
               updates = Some [update_A, update_B] \<rparr>"

definition update_C :: InventoryUpdate where
  "update_C = \<lparr> inventoryItemId = ''C'', locationId = ''1'', quantity = 0 \<rparr>"

definition post_ABC :: api_request where
  "post_ABC = \<lparr> req_method = ''POST'',
                cookie = Some ''shopify_access_token=tok; shopify_shop=s.example'', query = [],
                updates = Some [update_A, update_B, update_C] \<rparr>"

definition garbling_server :: "nat server" where
  "garbling_server n r =
     (if n = 0 then (Response 200 (Json \<lparr> data_errors = None, userErrors = Some [] \<rparr>), Suc n)
      else (Response 200 (JsonThrows ''Unexpected token < in JSON''), Suc n))"

definition post_A :: api_request where
  "post_A = \<lparr> req_method = ''POST'', cookie = Some ''shopify_access_token=tok; shopify_shop=s.example'', query = [],
              updates = Some [update_A] \<rparr>"

definition anonymous_empty_post :: api_request where
  "anonymous_empty_post = \<lparr> req_method = ''POST'', cookie = None, query = [], updates = Some [] \<rparr>"

definition throttling_server :: "unit server" where
  "throttling_server w r = (Response 429 (JsonThrows ''Unexpected token''), w)"

definition rejecting_server :: "unit server" where
  "rejecting_server w r =
     (Response 200 (Json \<lparr> data_errors = None,
                            userErrors = Some [\<lparr> message = Some ''Quantity is invalid'' \<rparr>] \<rparr>), w)"

definition unreachable_server :: "unit server" where
  "unreachable_server w r = (FetchThrows ''fetch failed'', w)"

definition flaky_server :: "nat server" where
  "flaky_server n r =
     (if n = 0 then (Response 503 (JsonThrows ''Unexpected token''), Suc n)
      else (Response 200 (Json \<lparr> data_errors = None, userErrors = Some [] \<rparr>), Suc n))"


definition codeunit_compare :: "string \<Rightarrow> string \<Rightarrow> int" where
  "codeunit_compare a b = (if a = b then 0 else if a < b then - 1 else 1)"

definition get_bristol :: api_request where
  "get_bristol = \<lparr> req_method = ''GET'', cookie = None,
                   query = [(''locationId'', QStr ''62584946887'')], updates = None \<rparr>"

definition get_bristol_signed_in :: api_request where
  "get_bristol_signed_in =
     \<lparr> req_method = ''GET'', cookie = Some ''shopify_access_token=tok; shopify_shop=s.example'',
       query = [(''locationId'', QStr ''62584946887'')], updates = None \<rparr>"

definition stocked_at :: "string \<Rightarrow> string \<Rightarrow> int option \<Rightarrow> products_query \<Rightarrow> item_node option" where
  "stocked_at name loc n q =
     Some \<lparr> item_id = ''item-'' @ name,
            inventoryLevel = (if query_location q = ''gid://shopify/Location/'' @ loc
                              then Some \<lparr> level_id = ''level-'' @ name, available = n \<rparr> else None) \<rparr>"

definition panel_edges :: "products_query \<Rightarrow> product_node list" where
  "panel_edges q =
     [\<lparr> product_id = ''p1'', product_title = ''Oak panel'', featuredImage_url = None,
        variants =
          [\<lparr> variant_id = ''v1'', variant_sku = Some ''OAK-2'', variant_title = ''Large'',
              inventoryItem = stocked_at ''v1'' ''62584946887'' (Some 4) q \<rparr>,
           \<lparr> variant_id = ''v2'', variant_sku = Some ''OAK-1'', variant_title = ''Small'',
              inventoryItem = stocked_at ''v2'' ''71658701033'' (Some 9) q \<rparr>,
           \<lparr> variant_id = ''v3'', variant_sku = None, variant_title = ''Offcut'',
              inventoryItem = stocked_at ''v3'' ''62584946887'' (Some (- 3)) q \<rparr>,
           \<lparr> variant_id = ''v4'', variant_sku = Some ''ASH-1'', variant_title = ''Default Title'',
              inventoryItem = stocked_at ''v4'' ''62584946887'' None q \<rparr>,
           \<lparr> variant_id = ''v5'', variant_sku = Some [], variant_title = ''Sample'',
              inventoryItem = stocked_at ''v5'' ''62584946887'' (Some 0) q \<rparr>] \<rparr>]"

definition panel_upstream :: "products_query \<Rightarrow> products_reply" where
  "panel_upstream q =
     QueryResponse 200 (ProductsJson \<lparr> query_errors = None, product_edges = Inr (panel_edges q) \<rparr>)"

definition depot_edges :: "product_node list" where
  "depot_edges =
     [\<lparr> product_id = ''p2'', product_title = ''Birch panel'', featuredImage_url = Some ''birch.png'',
        variants =
          [\<lparr> variant_id = ''b1'', variant_sku = Some ''B-2'', variant_title = ''Large'',
              inventoryItem = Some \<lparr> item_id = ''item-b1'',
                inventoryLevel = Some \<lparr> level_id = ''level-b1'', available = Some 5 \<rparr> \<rparr> \<rparr>,
           \<lparr> variant_id = ''b2'', variant_sku = Some ''B-1'', variant_title = ''Small'',
              inventoryItem = Some \<lparr> item_id = ''item-b2'',
                inventoryLevel = Some \<lparr> level_id = ''level-b2'', available = None \<rparr> \<rparr> \<rparr>,
           \<lparr> variant_id = ''b3'', variant_sku = Some ''B-3'', variant_title = ''Offcut'',
              inventoryItem = Some \<lparr> item_id = ''item-b3'',
                inventoryLevel = Some \<lparr> level_id = ''level-b3'', available = Some 12 \<rparr> \<rparr> \<rparr>] \<rparr>]"

definition depot_upstream :: "products_query \<Rightarrow> products_reply" where
  "depot_upstream q =
     QueryResponse 200 (ProductsJson \<lparr> query_errors = None, product_edges = Inr depot_edges \<rparr>)"

definition get_london :: api_request where
  "get_london = \<lparr> req_method = ''GET'', cookie = None,
                  query = [(''locationId'', QStr ''71658701033'')], updates = None \<rparr>"

definition stub_mac :: "string \<Rightarrow> string \<Rightarrow> string" where
  "stub_mac key msg = key @ '':'' @ msg"

definition granting_exchange :: "unit exchange" where
  "granting_exchange w r = (ExchangeResponse 200 (BodyJson (Some ''shpat_1'')), w)"

definition callback_request :: "string \<Rightarrow> query_params \<Rightarrow> api_request" where
  "callback_request nonce_cookie q =
     \<lparr> req_method = ''GET'', cookie = Some (''shopify_nonce='' @ nonce_cookie), query = q, updates = None \<rparr>"

definition forged_callback :: api_request where
  "forged_callback = callback_request ''abc''
     [(''code'', QStr ''c1''), (''shop'', QStr ''s.example''), (''state'', QStr ''abd'')]"

definition incomplete_callback :: api_request where
  "incomplete_callback = callback_request ''abc''
     [(''shop'', QStr ''s.example''), (''state'', QStr ''abd''), (''hmac'', QStr ''bad'')]"

definition tampered_callback :: api_request where
  "tampered_callback = callback_request ''abc''
     [(''state'', QStr ''abc''), (''code'', QStr ''c1''), (''hmac'', QStr ''bad''),
      (''shop'', QStr ''s.example'')]"

definition empty_hmac_callback :: api_request where
  "empty_hmac_callback = callback_request ''abc''
     [(''code'', QStr ''c1''), (''shop'', QStr ''s.example''), (''state'', QStr ''abc''),
      (''hmac'', QStr [])]"

definition zero_mac :: "string \<Rightarrow> string \<Rightarrow> string" where
  "zero_mac key msg = []"

definition oak_record :: Product where
  "oak_record = \<lparr> variantId = ''v1'', productId = ''p1'', productTitle = ''Oak panel'',
                  variantTitle = Some ''Large'', sku = ''OAK-2'', image = None,
                  itemId = ''item-v1'', inventoryLevelId = ''level-v1'', currentStock = 7 \<rparr>"

section \<open>Properties of the Inventory Writer\<close>

lemma fetches_append [simp]: "fetches (xs @ ys) = fetches xs @ fetches ys"
  by (induction xs rule: fetches.induct) simp_all

lemma process_updates_no_throw:
  "list_all (\<lambda>x. \<not> throws x) (replies srv (world st) (map (mk_request S T) ups)) \<Longrightarrow>
   \<exists>st'. process_updates srv S T ups st = (st', None) \<and>
         fetches (trace st') = fetches (trace st) @ map (mk_request S T) ups \<and>
         success (results st') + failed (results st')
           = success (results st) + failed (results st) + length ups"
proof (induction ups arbitrary: st)
  case Nil
  then show ?case by simp
next
  case (Cons u us)
  obtain x w1 where srv: "srv (world st) (mk_request S T u) = (x, w1)" by (cases "srv (world st) (mk_request S T u)")
  from Cons.prems srv have nx: "\<not> throws x" and rest: "list_all (\<lambda>x. \<not> throws x) (replies srv w1 (map (mk_request S T) us))"
    by simp_all
  show ?case
  proof (cases x)
    case (FetchThrows e)
    with nx show ?thesis by simp
  next
    case (Response stt js)
    show ?thesis
    proof (cases "response_ok stt")
      case False
      let ?st1 = "count_failed (''API error for '' @ inventoryItemId u @ '': '' @ nat_toString stt) (st\<lparr> trace := trace st @ [Fetch (mk_request S T u)], world := w1 \<rparr>)"
      have w: "world ?st1 = w1" by (simp add: count_failed_def)
      from Cons.IH[of ?st1] rest w obtain st' where
        "process_updates srv S T us ?st1 = (st', None)"
        "fetches (trace st') = fetches (trace ?st1) @ map (mk_request S T) us"
        "success (results st') + failed (results st') = success (results ?st1) + failed (results ?st1) + length us"
        by auto
      then show ?thesis using srv Response False
        by (simp add: count_failed_def)
    next
      case True
      with nx Response obtain d where js: "js = Json d" by (cases js) auto
      let ?st1 = "st\<lparr> trace := trace st @ [Fetch (mk_request S T u)], world := w1 \<rparr>"
      let ?st2 = "if has_errors d then count_failed (''Failed '' @ inventoryItemId u @ '': '' @ errorMsg d) ?st1 else count_success ?st1"
      let ?st3 = "?st2\<lparr> trace := trace ?st2 @ [Delay 100] \<rparr>"
      have w: "world ?st3 = w1" by (simp add: count_failed_def count_success_def)
      from Cons.IH[of ?st3] rest w obtain st' where
        "process_updates srv S T us ?st3 = (st', None)"
        "fetches (trace st') = fetches (trace ?st3) @ map (mk_request S T) us"
        "success (results st') + failed (results st') = success (results ?st3) + failed (results ?st3) + length us"
        by auto
      then show ?thesis using srv Response True js
        by (simp add: count_failed_def count_success_def Let_def)
    qed
  qed
qed

lemma process_updates_errors:
  "process_updates srv S T ups st = (st', None) \<Longrightarrow>
   errors (results st') = errors (results st) @ concat (map2 error_messages ups (replies srv (world st) (map (mk_request S T) ups))) \<and>
   failed (results st') = failed (results st) + length (concat (map2 error_messages ups (replies srv (world st) (map (mk_request S T) ups))))"
proof (induction ups arbitrary: st)
  case Nil
  then show ?case by simp
next
  case (Cons u us)
  obtain x w1 where srv: "srv (world st) (mk_request S T u) = (x, w1)" by (cases "srv (world st) (mk_request S T u)")
  show ?case
  proof (cases x)
    case (FetchThrows e)
    with Cons.prems srv show ?thesis by simp
  next
    case (Response stt js)
    show ?thesis
    proof (cases "response_ok stt")
      case False
      let ?st1 = "count_failed (''API error for '' @ inventoryItemId u @ '': '' @ nat_toString stt) (st\<lparr> trace := trace st @ [Fetch (mk_request S T u)], world := w1 \<rparr>)"
      have w: "world ?st1 = w1" by (simp add: count_failed_def)
      from Cons.prems srv Response False have "process_updates srv S T us ?st1 = (st', None)" by simp
      from Cons.IH[OF this] w show ?thesis using srv Response False
        by (simp add: count_failed_def)
    next
      case True
      show ?thesis
      proof (cases js)
        case (JsonThrows e)
        with Cons.prems srv Response True show ?thesis by simp
      next
        case (Json d)
        let ?st1 = "st\<lparr> trace := trace st @ [Fetch (mk_request S T u)], world := w1 \<rparr>"
        let ?st2 = "if has_errors d then count_failed (''Failed '' @ inventoryItemId u @ '': '' @ errorMsg d) ?st1 else count_success ?st1"
        let ?st3 = "?st2\<lparr> trace := trace ?st2 @ [Delay 100] \<rparr>"
        have w: "world ?st3 = w1" by (simp add: count_failed_def count_success_def)
        from Cons.prems srv Response True Json have "process_updates srv S T us ?st3 = (st', None)" by (simp add: Let_def)
        from Cons.IH[OF this] w show ?thesis using srv Response True Json
          by (simp add: count_failed_def count_success_def)
      qed
    qed
  qed
qed


lemma throws_iff_thrown: "throws x \<longleftrightarrow> thrown x \<noteq> None"
  by (cases x rule: thrown.cases) simp_all

lemma first_thrown_None: "first_thrown rs = None \<longleftrightarrow> list_all (\<lambda>x. \<not> throws x) rs"
  by (induction rs) (auto simp: throws_iff_thrown split: option.splits)

lemma process_updates_run:
  "\<exists>st'. process_updates srv S T ups st
            = (st', first_thrown (replies srv (world st) (map (mk_request S T) ups))) \<and>
         fetches (trace st') = fetches (trace st) @
           take (Suc (length (takeWhile (\<lambda>x. \<not> throws x)
                                (replies srv (world st) (map (mk_request S T) ups)))))
                (map (mk_request S T) ups)"
proof (induction ups arbitrary: st)
  case Nil
  then show ?case by simp
next
  case (Cons u us)
  obtain x w1 where srv: "srv (world st) (mk_request S T u) = (x, w1)"
    by (cases "srv (world st) (mk_request S T u)")
  let ?st1 = "st\<lparr> trace := trace st @ [Fetch (mk_request S T u)], world := w1 \<rparr>"
  show ?case
  proof (cases x rule: thrown.cases)
    case (1 e)
    with srv show ?thesis by simp
  next
    case (2 stt e)
    show ?thesis
    proof (cases "response_ok stt")
      case True
      with 2 srv show ?thesis by simp
    next
      case False
      let ?st2 = "count_failed (''API error for '' @ inventoryItemId u @ '': '' @ nat_toString stt) ?st1"
      have w: "world ?st2 = w1" and t: "fetches (trace ?st2) = fetches (trace st) @ [mk_request S T u]"
        by (simp_all add: count_failed_def)
      from Cons.IH[of ?st2] obtain st' where
        "process_updates srv S T us ?st2 = (st', first_thrown (replies srv w1 (map (mk_request S T) us)))"
        "fetches (trace st') = fetches (trace ?st2) @
           take (Suc (length (takeWhile (\<lambda>x. \<not> throws x) (replies srv w1 (map (mk_request S T) us)))))
                (map (mk_request S T) us)"
        unfolding w by blast
      then show ?thesis using srv 2 False t by simp
    qed
  next
    case (3 stt d)
    show ?thesis
    proof (cases "response_ok stt")
      case False
      let ?st2 = "count_failed (''API error for '' @ inventoryItemId u @ '': '' @ nat_toString stt) ?st1"
      have w: "world ?st2 = w1" and t: "fetches (trace ?st2) = fetches (trace st) @ [mk_request S T u]"
        by (simp_all add: count_failed_def)
      from Cons.IH[of ?st2] obtain st' where
        "process_updates srv S T us ?st2 = (st', first_thrown (replies srv w1 (map (mk_request S T) us)))"
        "fetches (trace st') = fetches (trace ?st2) @
           take (Suc (length (takeWhile (\<lambda>x. \<not> throws x) (replies srv w1 (map (mk_request S T) us)))))
                (map (mk_request S T) us)"
        unfolding w by blast
      then show ?thesis using srv 3 False t by simp
    next
      case True
      let ?st2 = "if has_errors d then count_failed (''Failed '' @ inventoryItemId u @ '': '' @ errorMsg d) ?st1 else count_success ?st1"
      let ?st3 = "?st2\<lparr> trace := trace ?st2 @ [Delay 100] \<rparr>"
      have w: "world ?st3 = w1" and t: "fetches (trace ?st3) = fetches (trace st) @ [mk_request S T u]"
        by (simp_all add: count_failed_def count_success_def)
      from Cons.IH[of ?st3] obtain st' where
        "process_updates srv S T us ?st3 = (st', first_thrown (replies srv w1 (map (mk_request S T) us)))"
        "fetches (trace st') = fetches (trace ?st3) @
           take (Suc (length (takeWhile (\<lambda>x. \<not> throws x) (replies srv w1 (map (mk_request S T) us)))))
                (map (mk_request S T) us)"
        unfolding w by blast
      then show ?thesis using srv 3 True t by (simp add: Let_def)
    qed
  qed
qed

lemma update_handler_batch:
  assumes "req_method req = ''POST''"
    and "accessToken (getAuthFromCookies (cookie req) env_token env_shop) = Some T" and "T \<noteq> []"
    and "updates req = Some ups" and "ups \<noteq> []"
    and "process_updates srv (shop (getAuthFromCookies (cookie req) env_token env_shop)) T ups
           \<lparr> results = \<lparr> success = 0, failed = 0, errors = [] \<rparr>, trace = [], world = w \<rparr> = (st, x)"
  shows "update_handler srv env_token env_shop req w =
           (case x of None \<Rightarrow> \<lparr> status = 200, body = ResultsBody (results st) \<rparr>
                    | Some e \<Rightarrow> \<lparr> status = 500, body = ErrorBody e \<rparr>, trace st, world st)"
  using assms by (cases ups; cases x) (simp_all add: update_handler_def truthy_def Let_def)

lemma update_handler_results:
  assumes "update_handler srv env_token env_shop req w = (resp, tr, w')"
    and "body resp = ResultsBody r"
  shows "\<exists>T ups st. accessToken (getAuthFromCookies (cookie req) env_token env_shop) = Some T \<and>
           updates req = Some ups \<and>
           process_updates srv (shop (getAuthFromCookies (cookie req) env_token env_shop)) T ups
             \<lparr> results = \<lparr> success = 0, failed = 0, errors = [] \<rparr>, trace = [], world = w \<rparr> = (st, None) \<and>
           results st = r"
  using assms
  by (auto simp: update_handler_def truthy_def Let_def split: if_splits option.splits list.splits prod.splits)

subsection \<open>The batch contract\<close>

text \<open>
  Claim C1, as the handler implements it. For a POST request that carries a credential:
  an empty update list is answered with 400 "No updates provided" and no outbound call;
  a list of \<open>n \<ge> 1\<close> updates, when no outbound call throws, is answered with 200 after
  exactly one mutation call per update, in input order, whatever statuses and error
  lists the replies carry, and the counters add up to \<open>n\<close>; when a call throws, the
  answer is 500 with the message of the first exception, the calls made are those up to
  and including the throwing one, and no counters are reported.
\<close>

theorem writer_contract:
  assumes "req_method req = ''POST''"
    and "accessToken (getAuthFromCookies (cookie req) env_token env_shop) = Some T" and "T \<noteq> []"
    and "S = shop (getAuthFromCookies (cookie req) env_token env_shop)"
    and "updates req = Some ups"
    and "update_handler srv env_token env_shop req w = (resp, tr, w')"
  shows "(ups = [] \<longrightarrow> status resp = 400 \<and> body resp = ErrorBody ''No updates provided'' \<and> tr = [])
       \<and> (ups \<noteq> [] \<and> list_all (\<lambda>x. \<not> throws x) (replies srv w (map (mk_request S T) ups)) \<longrightarrow>
            status resp = 200 \<and> fetches tr = map (mk_request S T) ups \<and>
            (\<exists>r. body resp = ResultsBody r \<and> success r + failed r = length ups))
       \<and> (ups \<noteq> [] \<and> \<not> list_all (\<lambda>x. \<not> throws x) (replies srv w (map (mk_request S T) ups)) \<longrightarrow>
            status resp = 500 \<and>
            (\<exists>e. first_thrown (replies srv w (map (mk_request S T) ups)) = Some e \<and>
                 body resp = ErrorBody e) \<and>
            fetches tr = take (Suc (length (takeWhile (\<lambda>x. \<not> throws x)
                                          (replies srv w (map (mk_request S T) ups)))))
                              (map (mk_request S T) ups))"
proof -
  let ?rs = "replies srv w (map (mk_request S T) ups)"
  have empty: "status resp = 400 \<and> body resp = ErrorBody ''No updates provided'' \<and> tr = []"
    if "ups = []"
  proof -
    from that assms
    have "(resp, tr, w') = (\<lparr> status = 400, body = ErrorBody ''No updates provided'' \<rparr>, [], w)"
      by (simp add: update_handler_def truthy_def Let_def)
    then show ?thesis by simp
  qed
  have batch: "status resp = 200 \<and> fetches tr = map (mk_request S T) ups \<and>
        (\<exists>r. body resp = ResultsBody r \<and> success r + failed r = length ups)"
    if h: "ups \<noteq> [] \<and> list_all (\<lambda>x. \<not> throws x) ?rs"
  proof -
    let ?st0 = "\<lparr> results = \<lparr> success = 0, failed = 0, errors = [] \<rparr>, trace = [], world = w \<rparr>"
    from h have "list_all (\<lambda>x. \<not> throws x) (replies srv (world ?st0) (map (mk_request S T) ups))"
      by simp
    from process_updates_no_throw[OF this] obtain st' where
      run: "process_updates srv S T ups ?st0 = (st', None)"
      and calls: "fetches (trace st') = map (mk_request S T) ups"
      and total: "success (results st') + failed (results st') = length ups"
      by auto
    from h have ne: "ups \<noteq> []" by simp
    from update_handler_batch[OF assms(1,2,3,5) ne run[unfolded assms(4)]] assms(6)
    have "(resp, tr, w') = (\<lparr> status = 200, body = ResultsBody (results st') \<rparr>, trace st', world st')"
      by simp
    with calls total show ?thesis by simp
  qed
  have abort: "status resp = 500 \<and>
            (\<exists>e. first_thrown ?rs = Some e \<and> body resp = ErrorBody e) \<and>
            fetches tr = take (Suc (length (takeWhile (\<lambda>x. \<not> throws x) ?rs))) (map (mk_request S T) ups)"
    if h: "ups \<noteq> [] \<and> \<not> list_all (\<lambda>x. \<not> throws x) ?rs"
  proof -
    let ?st0 = "\<lparr> results = \<lparr> success = 0, failed = 0, errors = [] \<rparr>, trace = [], world = w \<rparr>"
    from h have "first_thrown ?rs \<noteq> None" by (simp add: first_thrown_None)
    then obtain e where e: "first_thrown ?rs = Some e" by blast
    from process_updates_run[of srv S T ups ?st0] e obtain st' where
      run: "process_updates srv S T ups ?st0 = (st', Some e)"
      and calls: "fetches (trace st') = take (Suc (length (takeWhile (\<lambda>x. \<not> throws x) ?rs)))
                                             (map (mk_request S T) ups)"
      by auto
    from h have ne: "ups \<noteq> []" by simp
    from update_handler_batch[OF assms(1,2,3,5) ne run[unfolded assms(4)]] assms(6)
    have "(resp, tr, w') = (\<lparr> status = 500, body = ErrorBody e \<rparr>, trace st', world st')"
      by simp
    with calls e show ?thesis by simp
  qed
  from empty batch abort show ?thesis by blast
qed

text \<open>
  The contract at a two-element batch whose first call is answered with HTTP 503: the
  second update is still sent, and one update is counted on each side. And at a
  three-element batch whose second call is answered 200 with a body that is not JSON: 500
  after two calls, the third update never sent.
\<close>

theorem writer_contract_witness:
  "status (fst (update_handler flaky_server None None post_AB 0)) = 200
   \<and> fetches (fst (snd (update_handler flaky_server None None post_AB 0)))
       = map (mk_request ''s.example'' ''tok'') [update_A, update_B]
   \<and> (\<exists>r. body (fst (update_handler flaky_server None None post_AB 0)) = ResultsBody r
          \<and> success r + failed r = 2)
   \<and> update_handler garbling_server None None post_ABC 0
       = (\<lparr> status = 500, body = ErrorBody ''Unexpected token < in JSON'' \<rparr>,
          [Fetch (mk_request ''s.example'' ''tok'' update_A), Delay 100,
           Fetch (mk_request ''s.example'' ''tok'' update_B)], 2)
   \<and> fetches (fst (snd (update_handler garbling_server None None post_ABC 0)))
       = take 2 (map (mk_request ''s.example'' ''tok'') [update_A, update_B, update_C])"
proof -
  have m: "req_method post_AB = ''POST''" by (simp add: post_AB_def)
  have t: "accessToken (getAuthFromCookies (cookie post_AB) None None) = Some ''tok''" by code_simp
  have s: "''s.example'' = shop (getAuthFromCookies (cookie post_AB) None None)" by code_simp
  have u: "updates post_AB = Some [update_A, update_B]" by (simp add: post_AB_def)
  have ok: "list_all (\<lambda>x. \<not> throws x)
              (replies flaky_server 0 (map (mk_request ''s.example'' ''tok'') [update_A, update_B]))"
    by code_simp
  have e: "update_handler flaky_server None None post_AB 0
             = (fst (update_handler flaky_server None None post_AB 0),
                fst (snd (update_handler flaky_server None None post_AB 0)),
                snd (snd (update_handler flaky_server None None post_AB 0)))" by simp
  have n: "''tok'' \<noteq> []" by simp
  have "[update_A, update_B] \<noteq> [] \<and> list_all (\<lambda>x. \<not> throws x)
          (replies flaky_server 0 (map (mk_request ''s.example'' ''tok'') [update_A, update_B]))
        \<longrightarrow> status (fst (update_handler flaky_server None None post_AB 0)) = 200
          \<and> fetches (fst (snd (update_handler flaky_server None None post_AB 0)))
                = map (mk_request ''s.example'' ''tok'') [update_A, update_B]
          \<and> (\<exists>r. body (fst (update_handler flaky_server None None post_AB 0)) = ResultsBody r
                \<and> success r + failed r = length [update_A, update_B])"
    using writer_contract[OF m t n s u e] by blast
  with ok have first: "status (fst (update_handler flaky_server None None post_AB 0)) = 200
   \<and> fetches (fst (snd (update_handler flaky_server None None post_AB 0)))
       = map (mk_request ''s.example'' ''tok'') [update_A, update_B]
   \<and> (\<exists>r. body (fst (update_handler flaky_server None None post_AB 0)) = ResultsBody r
          \<and> success r + failed r = 2)" by (simp add: numeral_2_eq_2)
  let ?rs = "replies garbling_server 0 (map (mk_request ''s.example'' ''tok'') [update_A, update_B, update_C])"
  obtain resp tr w' where
    e3: "update_handler garbling_server None None post_ABC 0 = (resp, tr, w')"
    using prod_cases3 by blast
  have m3: "req_method post_ABC = ''POST''" by (simp add: post_ABC_def)
  have t3: "accessToken (getAuthFromCookies (cookie post_ABC) None None) = Some ''tok''" by code_simp
  have s3: "''s.example'' = shop (getAuthFromCookies (cookie post_ABC) None None)" by code_simp
  have u3: "updates post_ABC = Some [update_A, update_B, update_C]" by (simp add: post_ABC_def)
  have bad: "\<not> list_all (\<lambda>x. \<not> throws x) ?rs" by code_simp
  have ft: "first_thrown ?rs = Some ''Unexpected token < in JSON''" by code_simp
  have k: "Suc (length (takeWhile (\<lambda>x. \<not> throws x) ?rs)) = 2" by code_simp
  from writer_contract[OF m3 t3 n s3 u3 e3] bad
  have "status resp = 500 \<and> (\<exists>e. first_thrown ?rs = Some e \<and> body resp = ErrorBody e) \<and>
        fetches tr = take (Suc (length (takeWhile (\<lambda>x. \<not> throws x) ?rs)))
                       (map (mk_request ''s.example'' ''tok'') [update_A, update_B, update_C])"
    by blast
  with ft k have second: "status resp = 500 \<and> body resp = ErrorBody ''Unexpected token < in JSON'' \<and>
        fetches tr = take 2 (map (mk_request ''s.example'' ''tok'') [update_A, update_B, update_C])"
    by auto
  have full: "update_handler garbling_server None None post_ABC 0
       = (\<lparr> status = 500, body = ErrorBody ''Unexpected token < in JSON'' \<rparr>,
          [Fetch (mk_request ''s.example'' ''tok'' update_A), Delay 100,
           Fetch (mk_request ''s.example'' ''tok'' update_B)], 2)" by code_simp
  from first second e3 full show ?thesis by simp
qed

text \<open>
  Without the proviso the contract fails: when \<open>fetch\<close> rejects on the first of two
  updates, the \<open>catch\<close> block answers 500 after a single call, the second update is never
  sent and no counters are reported. And an empty list in a request without a credential
  is answered 401 by the guard that precedes the test of the list.
\<close>

theorem writer_abort_counterexample:
  "updates post_AB = Some [update_A, update_B]
   \<and> status (fst (update_handler unreachable_server None None post_AB ())) = 500
   \<and> body (fst (update_handler unreachable_server None None post_AB ())) = ErrorBody ''fetch failed''
   \<and> fetches (fst (snd (update_handler unreachable_server None None post_AB ())))
       = [mk_request ''s.example'' ''tok'' update_A]
   \<and> update_handler unreachable_server None None anonymous_empty_post ()
       = (\<lparr> status = 401, body = NeedsAuthBody ''Not authenticated'' \<rparr>, [], ())"
  by code_simp

subsection \<open>The inter-call delay\<close>

text \<open>
  Claim C2 at a failing input: one update, answered with HTTP 429. The \<open>continue\<close> of the
  \<open>!response.ok\<close> branch leaves the loop body before the \<open>setTimeout\<close>, so the trace holds the
  call and no delay after it. A reply with status 200 is followed by the delay.
\<close>

theorem delay_skipped_after_http_failure:
  "fst (snd (update_handler throttling_server None None post_A ()))
     = [Fetch (mk_request ''s.example'' ''tok'' update_A)]
   \<and> fst (snd (update_handler rejecting_server None None post_A ()))
     = [Fetch (mk_request ''s.example'' ''tok'' update_A), Delay 100]"
  by code_simp

subsection \<open>Error messages and the failed counter\<close>

text \<open>
  Claim C10: whenever the handler answers with a results object, the length of its error
  list equals its failed counter, and the list is made of the messages of the failed
  updates, one each, in input order; a successful update adds none.
\<close>

theorem errors_match_failed:
  assumes "update_handler srv env_token env_shop req w = (resp, tr, w')"
    and "body resp = ResultsBody r"
  shows "length (errors r) = failed r \<and>
         (\<exists>T ups. accessToken (getAuthFromCookies (cookie req) env_token env_shop) = Some T \<and>
            updates req = Some ups \<and>
            errors r = concat (map2 error_messages ups
              (replies srv w (map (mk_request (shop (getAuthFromCookies (cookie req) env_token env_shop)) T) ups))))"
proof -
  from update_handler_results[OF assms] obtain T ups st where
    a: "accessToken (getAuthFromCookies (cookie req) env_token env_shop) = Some T"
    and u: "updates req = Some ups"
    and run: "process_updates srv (shop (getAuthFromCookies (cookie req) env_token env_shop)) T ups
             \<lparr> results = \<lparr> success = 0, failed = 0, errors = [] \<rparr>, trace = [], world = w \<rparr> = (st, None)"
    and r: "results st = r" by blast
  from process_updates_errors[OF run] r a u show ?thesis by simp
qed

theorem errors_match_failed_witness:
  "body (fst (update_handler flaky_server None None post_AB 0))
     = ResultsBody \<lparr> success = 1, failed = 1, errors = [''API error for A: 503''] \<rparr>
   \<and> length (errors \<lparr> success = 1, failed = 1, errors = [''API error for A: 503''] \<rparr>)
       = failed \<lparr> success = 1, failed = 1, errors = [''API error for A: 503''] \<rparr>"
proof -
  let ?out = "update_handler flaky_server None None post_AB 0"
  let ?r = "\<lparr> success = 1, failed = 1, errors = [''API error for A: 503''] \<rparr>"
  have e: "?out = (fst ?out, fst (snd ?out), snd (snd ?out))" by simp
  have b: "body (fst ?out) = ResultsBody ?r" by code_simp
  from errors_match_failed[OF e b] b show ?thesis by blast
qed


section \<open>Properties of the Inventory Reader\<close>

lemma set_insert_by [simp]: "set (insert_by cmp x ys) = insert x (set ys)"
  by (induction ys) auto

lemma length_insert_by [simp]: "length (insert_by cmp x ys) = Suc (length ys)"
  by (induction ys) auto

lemma set_array_sort [simp]: "set (array_sort cmp xs) = set xs"
  by (induction xs) (simp_all add: array_sort_def)

lemma length_array_sort [simp]: "length (array_sort cmp xs) = length xs"
  by (induction xs) (simp_all add: array_sort_def)

lemma sorted_insert_by:
  assumes "consistent cmp" and "sorted_wrt (\<lambda>a b. cmp a b \<le> 0) ys"
  shows "sorted_wrt (\<lambda>a b. cmp a b \<le> 0) (insert_by cmp x ys)"
  using assms(2)
proof (induction ys)
  case Nil
  then show ?case by simp
next
  case (Cons y ys)
  from assms(1) have total: "\<And>a b. cmp a b \<le> 0 \<or> cmp b a \<le> 0"
    and trans: "\<And>a b c. cmp a b \<le> 0 \<Longrightarrow> cmp b c \<le> 0 \<Longrightarrow> cmp a c \<le> 0"
    unfolding consistent_def by blast+
  show ?case
  proof (cases "cmp x y \<le> 0")
    case True
    with Cons.prems trans show ?thesis by auto
  next
    case False
    with total[of x y] have "cmp y x \<le> 0" by simp
    with False Cons show ?thesis by auto
  qed
qed

lemma sorted_array_sort:
  "consistent cmp \<Longrightarrow> sorted_wrt (\<lambda>a b. cmp a b \<le> 0) (array_sort cmp xs)"
  by (induction xs) (simp_all add: array_sort_def sorted_insert_by)

lemma filter_tied_insert_by:
  assumes "consistent cmp"
  shows "filter (tied cmp k) (insert_by cmp x ys) =
           (if tied cmp k x then x # filter (tied cmp k) ys else filter (tied cmp k) ys)"
proof (induction ys)
  case Nil
  then show ?case by simp
next
  case (Cons y ys)
  from assms have trans: "\<And>a b c. cmp a b \<le> 0 \<Longrightarrow> cmp b c \<le> 0 \<Longrightarrow> cmp a c \<le> 0"
    unfolding consistent_def by blast
  show ?case
  proof (cases "cmp x y \<le> 0")
    case True
    then show ?thesis by simp
  next
    case False
    have "\<not> (tied cmp k x \<and> tied cmp k y)"
    proof
      assume "tied cmp k x \<and> tied cmp k y"
      then have "cmp x k \<le> 0" "cmp k y \<le> 0" by (simp_all add: tied_def)
      then have "cmp x y \<le> 0" by (rule trans)
      with False show False by simp
    qed
    with False Cons.IH show ?thesis by auto
  qed
qed

lemma array_sort_stable:
  "consistent cmp \<Longrightarrow> filter (tied cmp k) (array_sort cmp xs) = filter (tied cmp k) xs"
  by (induction xs) (simp_all add: array_sort_def filter_tied_insert_by)

lemma format_variant_no_level: "\<not> has_level v \<Longrightarrow> format_variant p v = []"
  by (auto simp: has_level_def level_of_def format_variant_def split: option.splits)

lemma length_format_variant: "length (format_variant p v) = (if has_level v then 1 else 0)"
  by (auto simp: has_level_def level_of_def format_variant_def split: option.splits)

lemma length_concat_format:
  "length (concat (map (format_variant p) vs)) = length (filter has_level vs)"
  by (induction vs) (simp_all add: length_format_variant)

lemma length_format_products:
  "length (format_products edges) = length (filter has_level (concat (map variants edges)))"
  by (induction edges) (simp_all add: format_products_def length_concat_format)

lemma in_format_products:
  "r \<in> set (format_products edges) \<longleftrightarrow>
     (\<exists>p \<in> set edges. \<exists>v \<in> set (variants p). has_level v \<and> format_variant p v = [r])"
proof -
  have one: "r \<in> set (format_variant p v) \<longleftrightarrow> has_level v \<and> format_variant p v = [r]" for p v
    by (auto simp: has_level_def level_of_def format_variant_def split: option.splits)
  show ?thesis by (auto simp: format_products_def one)
qed


lemma consistent_codeunit_compare: "consistent codeunit_compare"
  by (auto simp: consistent_def codeunit_compare_def)

lemma consistent_on_key: "consistent cmp \<Longrightarrow> consistent (\<lambda>a b. cmp (f a) (f b))"
  unfolding consistent_def by blast

lemma products_handler_success:
  assumes "body (products_handler localeCompare upstream env_token env_shop req) = ProductsBody ps"
  shows "\<exists>loc T edges. map_of (query req) ''locationId'' = Some (QStr loc) \<and> env_token = Some T \<and>
           upstream_edges (upstream (products_query_for env_shop T loc)) = Some edges \<and>
           ps = array_sort (\<lambda>a b. localeCompare (sku a) (sku b)) (format_products edges)"
  using assms
  by (auto simp: products_handler_def upstream_edges_def truthy_def
           split: if_splits option.splits qvalue.splits products_reply.splits products_json.splits sum.splits)


lemma products_handler_body:
  assumes "body (products_handler localeCompare upstream env_token env_shop req) = ProductsBody ps"
    and "map_of (query req) ''locationId'' = Some (QStr loc)"
    and "env_token = Some T"
    and "upstream_edges (upstream (products_query_for env_shop T loc)) = Some edges"
  shows "ps = array_sort (\<lambda>a b. localeCompare (sku a) (sku b)) (format_products edges)"
  using products_handler_success[OF assms(1)] assms(2-4) by auto

lemma variantId_format_variant: "r \<in> set (format_variant p v) \<Longrightarrow> variantId r = variant_id v"
  by (auto simp: format_variant_def split: option.splits)

lemma panel_upstream_edges: "upstream_edges (panel_upstream q) = Some (panel_edges q)"
  by (simp add: upstream_edges_def panel_upstream_def response_ok_def)

subsection \<open>A missing credential\<close>

text \<open>
  Claim C3 at a failing input: a GET request with a well-formed \<open>locationId\<close>, no cookie and
  no \<open>SHOPIFY_ACCESS_TOKEN\<close> in the environment. The handler reads the token from the
  environment only and answers 500 "Access token not configured": neither status 401 nor
  the \<open>needsAuth\<close> flag that the page tests for and that the update handler sends. The
  answer is the same when the request carries the token cookie that the callback sets and
  that \<open>getAuthFromCookies\<close> of the update handler would find.
\<close>

theorem reader_missing_token_is_500:
  "products_handler codeunit_compare panel_upstream None None get_bristol
     = \<lparr> status = 500, body = ErrorBody ''Access token not configured'' \<rparr>
   \<and> products_handler codeunit_compare panel_upstream None None get_bristol_signed_in
     = \<lparr> status = 500, body = ErrorBody ''Access token not configured'' \<rparr>
   \<and> accessToken (getAuthFromCookies (cookie get_bristol_signed_in) None None) = Some ''tok''"
  by code_simp

subsection \<open>Only variants stocked at the location\<close>

text \<open>
  Claim C7: when the Reader answers with a product list, every record of the list was
  formatted from a variant of the reply that carries an inventory level at the location
  asked for, and there are exactly as many records as such variants; with distinct variant
  ids in the reply, the id of a variant without a level is the id of no record.
\<close>

theorem reader_excludes_unstocked:
  assumes "body (products_handler localeCompare upstream env_token env_shop req) = ProductsBody ps"
    and "map_of (query req) ''locationId'' = Some (QStr loc)"
    and "env_token = Some T"
    and "upstream_edges (upstream (products_query_for env_shop T loc)) = Some edges"
  shows "(\<forall>r \<in> set ps. \<exists>p \<in> set edges. \<exists>v \<in> set (variants p). has_level v \<and> format_variant p v = [r])
       \<and> length ps = length (filter has_level (concat (map variants edges)))
       \<and> (distinct (map variant_id (concat (map variants edges))) \<longrightarrow>
            (\<forall>v \<in> set (concat (map variants edges)). \<not> has_level v \<longrightarrow> variant_id v \<notin> variantId ` set ps))"
proof -
  have ps: "ps = array_sort (\<lambda>a b. localeCompare (sku a) (sku b)) (format_products edges)"
    using assms by (rule products_handler_body)
  have made: "\<forall>r \<in> set ps. \<exists>p \<in> set edges. \<exists>v \<in> set (variants p). has_level v \<and> format_variant p v = [r]"
    by (simp add: ps in_format_products)
  have count: "length ps = length (filter has_level (concat (map variants edges)))"
    by (simp add: ps length_format_products)
  have absent: "variant_id v \<notin> variantId ` set ps"
    if d: "distinct (map variant_id (concat (map variants edges)))"
      and v: "v \<in> set (concat (map variants edges))" and nl: "\<not> has_level v" for v
  proof
    assume "variant_id v \<in> variantId ` set ps"
    then obtain r where r: "r \<in> set ps" and id: "variantId r = variant_id v" by auto
    from made r obtain p v' where p: "p \<in> set edges" and v': "v' \<in> set (variants p)"
      and lv: "has_level v'" and f: "format_variant p v' = [r]" by blast
    from f have "variantId r = variant_id v'" using variantId_format_variant[of r p v'] by simp
    with id have same: "variant_id v' = variant_id v" by simp
    from p v' have "v' \<in> set (concat (map variants edges))" by auto
    with d v same have "v' = v" by (meson distinct_map inj_onD)
    with lv nl show False by simp
  qed
  from made count absent show ?thesis by blast
qed

text \<open>
  At the Bristol query five variants come back, the second stocked in London only: four
  records, none of them for \<open>v2\<close>.
\<close>

theorem reader_excludes_unstocked_witness:
  "map variantId (products_of (products_handler codeunit_compare panel_upstream (Some ''tok'') None get_bristol))
     = [''v4'', ''v3'', ''v5'', ''v1'']
   \<and> length (products_of (products_handler codeunit_compare panel_upstream (Some ''tok'') None get_bristol))
     = length (filter has_level (concat (map variants
         (panel_edges (products_query_for None ''tok'' ''62584946887'')))))
   \<and> map has_level (concat (map variants (panel_edges (products_query_for None ''tok'' ''62584946887''))))
     = [True, False, True, True, True]"
proof -
  let ?R = "products_handler codeunit_compare panel_upstream (Some ''tok'') None get_bristol"
  have b: "body ?R = ProductsBody (products_of ?R)" by code_simp
  have l: "map_of (query get_bristol) ''locationId'' = Some (QStr ''62584946887'')"
    by (simp add: get_bristol_def)
  have ids: "map variantId (products_of ?R) = [''v4'', ''v3'', ''v5'', ''v1'']" by code_simp
  have lv: "map has_level (concat (map variants (panel_edges (products_query_for None ''tok'' ''62584946887''))))
     = [True, False, True, True, True]" by code_simp
  from reader_excludes_unstocked[OF b l refl panel_upstream_edges] ids lv
  show ?thesis by blast
qed

subsection \<open>Sorted by SKU, ties in original order\<close>

text \<open>
  Claim C8: for a comparison \<open>localeCompare\<close> that is a consistent comparator (total and
  transitive, as a collation is), the product list of a successful answer is sorted by
  \<open>sku\<close>, so each adjacent pair is in order, and the records whose SKUs tie keep the
  order in which the reply listed them.
\<close>

theorem reader_output_sorted:
  assumes "consistent localeCompare"
    and "body (products_handler localeCompare upstream env_token env_shop req) = ProductsBody ps"
    and "map_of (query req) ''locationId'' = Some (QStr loc)"
    and "env_token = Some T"
    and "upstream_edges (upstream (products_query_for env_shop T loc)) = Some edges"
  shows "sorted_wrt (\<lambda>a b. localeCompare (sku a) (sku b) \<le> 0) ps
       \<and> (\<forall>i. Suc i < length ps \<longrightarrow> localeCompare (sku (ps ! i)) (sku (ps ! Suc i)) \<le> 0)
       \<and> (\<forall>k. filter (\<lambda>r. tied localeCompare k (sku r)) ps
               = filter (\<lambda>r. tied localeCompare k (sku r)) (format_products edges))"
proof -
  let ?cmp = "\<lambda>a b. localeCompare (sku a) (sku b)"
  have ps: "ps = array_sort ?cmp (format_products edges)"
    using assms(2-5) by (rule products_handler_body)
  have c: "consistent ?cmp" using assms(1) by (rule consistent_on_key)
  have s: "sorted_wrt (\<lambda>a b. ?cmp a b \<le> 0) ps"
    unfolding ps using c by (rule sorted_array_sort)
  have adj: "localeCompare (sku (ps ! i)) (sku (ps ! Suc i)) \<le> 0" if "Suc i < length ps" for i
    using s that by (simp add: sorted_wrt_iff_nth_less)
  have stable: "filter (\<lambda>r. tied localeCompare k (sku r)) ps
                  = filter (\<lambda>r. tied localeCompare k (sku r)) (format_products edges)" for k
  proof -
    show ?thesis
    proof (cases "\<exists>r \<in> set (format_products edges). tied localeCompare k (sku r)")
      case False
      then have "filter (\<lambda>r. tied localeCompare k (sku r)) (format_products edges) = []"
        by (simp add: filter_empty_conv)
      moreover from False have "filter (\<lambda>r. tied localeCompare k (sku r)) ps = []"
        by (simp add: filter_empty_conv ps)
      ultimately show ?thesis by simp
    next
      case True
      then obtain r0 :: Product where r0: "tied localeCompare k (sku r0)" by blast
      from assms(1) have trans: "\<And>a b c. localeCompare a b \<le> 0 \<Longrightarrow> localeCompare b c \<le> 0 \<Longrightarrow> localeCompare a c \<le> 0"
        unfolding consistent_def by blast
      have eq: "tied localeCompare k (sku r) = tied ?cmp r0 r" for r
        using r0 unfolding tied_def by (meson trans)
      show ?thesis unfolding eq ps using c by (rule array_sort_stable)
    qed
  qed
  from s adj stable show ?thesis by blast
qed

text \<open>Two variants without a SKU tie as "No SKU" and stay in reply order (\<open>v3\<close>, \<open>v5\<close>).\<close>

theorem reader_output_sorted_witness:
  "consistent codeunit_compare
   \<and> map sku (products_of (products_handler codeunit_compare panel_upstream (Some ''tok'') None get_bristol))
       = [''ASH-1'', ''No SKU'', ''No SKU'', ''OAK-2'']
   \<and> map variantId (filter (\<lambda>r. tied codeunit_compare ''No SKU'' (sku r))
        (products_of (products_handler codeunit_compare panel_upstream (Some ''tok'') None get_bristol)))
       = map variantId (filter (\<lambda>r. tied codeunit_compare ''No SKU'' (sku r))
           (format_products (panel_edges (products_query_for None ''tok'' ''62584946887''))))
   \<and> sorted_wrt (\<lambda>a b. codeunit_compare (sku a) (sku b) \<le> 0)
        (products_of (products_handler codeunit_compare panel_upstream (Some ''tok'') None get_bristol))"
proof -
  let ?R = "products_handler codeunit_compare panel_upstream (Some ''tok'') None get_bristol"
  have b: "body ?R = ProductsBody (products_of ?R)" by code_simp
  have l: "map_of (query get_bristol) ''locationId'' = Some (QStr ''62584946887'')"
    by (simp add: get_bristol_def)
  have skus: "map sku (products_of ?R) = [''ASH-1'', ''No SKU'', ''No SKU'', ''OAK-2'']" by code_simp
  from reader_output_sorted[OF consistent_codeunit_compare b l refl panel_upstream_edges]
    consistent_codeunit_compare skus
  show ?thesis by simp
qed

subsection \<open>Stock values\<close>

lemma format_variant_own_level:
  "format_variant p v = [r] \<Longrightarrow>
     \<exists>lv. level_of v = Some lv \<and> variantId r = variant_id v \<and> inventoryLevelId r = level_id lv \<and>
          currentStock r = stock_of lv"
  by (auto simp: format_variant_def level_of_def stock_of_def split: option.splits)

lemma format_variant_stocked:
  "level_of v = Some lv \<Longrightarrow>
     \<exists>r. format_variant p v = [r] \<and> variantId r = variant_id v \<and> inventoryLevelId r = level_id lv \<and>
         currentStock r = stock_of lv"
  by (auto simp: format_variant_def level_of_def stock_of_def split: option.splits)

lemma depot_upstream_edges: "upstream_edges (depot_upstream q) = Some depot_edges"
  by (simp add: upstream_edges_def depot_upstream_def response_ok_def)

text \<open>
  Claim C9, as the handler implements it. Every record is the formatting of one stocked
  variant of the reply, carries that variant's id and the id of its level, and its
  \<open>currentStock\<close> is the \<open>available\<close> quantity the upstream reports for that level, 0 when
  that is null; conversely every stocked variant has such a record in the output. So
  \<open>currentStock\<close> is non-negative whenever every quantity of the reply is; nothing clamps
  a negative one.
\<close>

theorem reader_stock_values:
  assumes "body (products_handler localeCompare upstream env_token env_shop req) = ProductsBody ps"
    and "map_of (query req) ''locationId'' = Some (QStr loc)"
    and "env_token = Some T"
    and "upstream_edges (upstream (products_query_for env_shop T loc)) = Some edges"
  shows "(\<forall>r \<in> set ps. \<exists>p \<in> set edges. \<exists>v \<in> set (variants p). \<exists>lv.
            level_of v = Some lv \<and> format_variant p v = [r] \<and> variantId r = variant_id v \<and>
            inventoryLevelId r = level_id lv \<and> currentStock r = stock_of lv)
       \<and> (\<forall>p \<in> set edges. \<forall>v \<in> set (variants p). \<forall>lv. level_of v = Some lv \<longrightarrow>
            (\<exists>r \<in> set ps. format_variant p v = [r] \<and> variantId r = variant_id v \<and>
               inventoryLevelId r = level_id lv \<and> currentStock r = stock_of lv))
       \<and> (nonneg_levels edges \<longrightarrow> (\<forall>r \<in> set ps. 0 \<le> currentStock r))"
proof -
  have ps: "ps = array_sort (\<lambda>a b. localeCompare (sku a) (sku b)) (format_products edges)"
    using assms by (rule products_handler_body)
  have src: "\<exists>p \<in> set edges. \<exists>v \<in> set (variants p). \<exists>lv.
            level_of v = Some lv \<and> format_variant p v = [r] \<and> variantId r = variant_id v \<and>
            inventoryLevelId r = level_id lv \<and> currentStock r = stock_of lv" if "r \<in> set ps" for r
  proof -
    from that obtain p v where p: "p \<in> set edges" and v: "v \<in> set (variants p)"
      and f: "format_variant p v = [r]"
      by (auto simp: ps in_format_products)
    from format_variant_own_level[OF f] p v f show ?thesis by blast
  qed
  have own: "\<exists>r \<in> set ps. format_variant p v = [r] \<and> variantId r = variant_id v \<and>
               inventoryLevelId r = level_id lv \<and> currentStock r = stock_of lv"
    if p: "p \<in> set edges" and v: "v \<in> set (variants p)" and lv: "level_of v = Some lv" for p v lv
  proof -
    from format_variant_stocked[OF lv, of p] obtain r where f: "format_variant p v = [r]"
      and rest: "variantId r = variant_id v \<and> inventoryLevelId r = level_id lv \<and> currentStock r = stock_of lv"
      by blast
    from lv have "has_level v" by (simp add: has_level_def)
    with p v f have "r \<in> set ps" by (auto simp: ps in_format_products)
    with f rest show ?thesis by blast
  qed
  have nonneg: "0 \<le> currentStock r" if n: "nonneg_levels edges" and r: "r \<in> set ps" for r
  proof -
    from src[OF r] obtain p v lv where p: "p \<in> set edges" and v: "v \<in> set (variants p)"
      and lv: "level_of v = Some lv" and cs: "currentStock r = stock_of lv" by blast
    from n p v have "case level_of v of None \<Rightarrow> True
                      | Some lv \<Rightarrow> (case available lv of None \<Rightarrow> True | Some n \<Rightarrow> 0 \<le> n)"
      by (auto simp: nonneg_levels_def list_all_iff)
    with lv have "case available lv of None \<Rightarrow> True | Some n \<Rightarrow> 0 \<le> n" by simp
    with cs show ?thesis by (cases "available lv") (simp_all add: stock_of_def)
  qed
  from src own nonneg show ?thesis by blast
qed

text \<open>Three stocked variants with the quantities 5, null and 12, listed by SKU.\<close>

theorem reader_stock_values_witness:
  "nonneg_levels depot_edges
   \<and> map variantId (products_of (products_handler codeunit_compare depot_upstream (Some ''tok'') None get_bristol))
       = [''b2'', ''b1'', ''b3'']
   \<and> map inventoryLevelId (products_of (products_handler codeunit_compare depot_upstream (Some ''tok'') None get_bristol))
       = [''level-b2'', ''level-b1'', ''level-b3'']
   \<and> map currentStock (products_of (products_handler codeunit_compare depot_upstream (Some ''tok'') None get_bristol))
       = [0, 5, 12]
   \<and> list_all (\<lambda>r. 0 \<le> currentStock r)
        (products_of (products_handler codeunit_compare depot_upstream (Some ''tok'') None get_bristol))"
proof -
  let ?R = "products_handler codeunit_compare depot_upstream (Some ''tok'') None get_bristol"
  have b: "body ?R = ProductsBody (products_of ?R)" by code_simp
  have l: "map_of (query get_bristol) ''locationId'' = Some (QStr ''62584946887'')"
    by (simp add: get_bristol_def)
  have n: "nonneg_levels depot_edges" by code_simp
  have i: "map variantId (products_of ?R) = [''b2'', ''b1'', ''b3'']" by code_simp
  have lv: "map inventoryLevelId (products_of ?R) = [''level-b2'', ''level-b1'', ''level-b3'']" by code_simp
  have s: "map currentStock (products_of ?R) = [0, 5, 12]" by code_simp
  from reader_stock_values[OF b l refl depot_upstream_edges] n
  have "\<forall>r \<in> set (products_of ?R). 0 \<le> currentStock r" by blast
  with n i lv s show ?thesis by (simp add: list_all_iff)
qed

text \<open>
  An oversold variant (\<open>available = -3\<close>) is passed through: the claim that every record
  has \<open>currentStock \<ge> 0\<close> for every upstream reply fails.
\<close>

theorem reader_negative_stock_counterexample:
  "status (products_handler codeunit_compare panel_upstream (Some ''tok'') None get_bristol) = 200
   \<and> map variantId
        (products_of (products_handler codeunit_compare panel_upstream (Some ''tok'') None get_bristol))
       = [''v4'', ''v3'', ''v5'', ''v1'']
   \<and> map currentStock
        (products_of (products_handler codeunit_compare panel_upstream (Some ''tok'') None get_bristol))
       = [0, - 3, 0, 4]"
  by code_simp

section \<open>Properties of the authorization callback\<close>

lemma qtruthy_None [simp]: "\<not> qtruthy None"
  by (simp add: qtruthy_def)

lemma truthy_None [simp]: "\<not> truthy None"
  by (simp add: truthy_def)


lemma callback_hmac_mismatch:
  assumes "qtruthy (map_of (query req) ''hmac'')"
    and "\<forall>secret. API_SECRET = Some secret \<longrightarrow> \<not> strict_eq (map_of (query req) ''hmac'') (Some (H secret (hmac_message (query req))))"
  shows "\<exists>n e. callback_handler H exch API_KEY API_SECRET req w = reject n e w \<and>
           (n = 400 \<or> n = 500 \<or> n = 403) \<and>
           (well_formed_callback API_KEY API_SECRET req \<and> strict_eq (map_of (query req) ''state'') (storedNonce_of req)
              \<longrightarrow> n = 403 \<and> e = ''Invalid HMAC'')"
  using assms
  by (auto simp: callback_handler_def well_formed_callback_def storedNonce_of_def Let_def
                 qpresent_def present_def split: option.splits)

lemma callback_no_hmac:
  assumes "\<not> qtruthy (map_of (query req) ''hmac'')"
  shows "callback_handler H exch API_KEY API_SECRET req w = callback_handler H' exch API_KEY API_SECRET req w"
  using assms
  by (auto simp: callback_handler_def Let_def split: option.splits)

lemma insort_map_fst: "insort (fst x) (map fst xs) = map fst (insort_key fst x xs)"
  by (induction xs) simp_all

lemma sort_map_fst: "sort (map fst xs) = map fst (sort_key fst xs)"
  by (induction xs) (simp_all add: insort_map_fst)

lemma hmac_message_is_signed_message:
  assumes "distinct (map fst q)"
  shows "hmac_message q = signed_message q"
proof -
  let ?ps = "filter (\<lambda>(k, v). k \<noteq> ''hmac'') q"
  have d: "distinct (map fst ?ps)" using assms by (simp add: distinct_map_filter)
  have m: "map ((\<lambda>key. key @ ''='' @ render (map_of ?ps key)) \<circ> fst) (sort_key fst ?ps)
          = map (\<lambda>(k, v). k @ ''='' @ render (Some v)) (sort_key fst ?ps)"
  proof (rule map_cong[OF refl])
    fix x assume "x \<in> set (sort_key fst ?ps)"
    then have x: "x \<in> set ?ps" by simp
    obtain k v where kv: "x = (k, v)" by (cases x)
    from x kv d have "map_of ?ps k = Some v" by simp
    with kv show "((\<lambda>key. key @ ''='' @ render (map_of ?ps key)) \<circ> fst) x
                    = (case x of (k, v) \<Rightarrow> k @ ''='' @ render (Some v))" by simp
  qed
  show ?thesis
    by (simp only: hmac_message_def signed_message_def Let_def sort_map_fst map_map m)
qed


lemma callback_rejected:
  assumes "callback_handler H exch API_KEY API_SECRET req w = (res, calls, w')"
    and "callback_handler H exch API_KEY API_SECRET req w = reject n e w"
  shows "calls = [] \<and> w' = w \<and> res = Answered \<lparr> status = n, body = ErrorBody e \<rparr>"
  using assms by (simp add: reject_def)

subsection \<open>The nonce guard\<close>




subsection \<open>The HMAC guard\<close>

text \<open>
  Claim C6, as the handler implements it, for any keyed hash \<open>H\<close> in the place of
  HMAC-SHA256 and a configured secret. The message that is hashed is the one the
  specification describes: the parameters other than \<open>hmac\<close>, sorted by key, written
  \<open>key=value\<close> and joined with \<open>&\<close>. A non-empty \<open>hmac\<close> that is not identical to the hash
  of that message is answered with an error before any call of the token endpoint, with
  403 "Invalid HMAC" when the earlier guards (parameters present, credentials configured,
  nonce equal) have passed. When \<open>hmac\<close> is absent or empty the hash is not consulted:
  the handler behaves the same for every \<open>H\<close>.
\<close>

theorem callback_hmac_guard:
  assumes "API_SECRET = Some secret"
    and "callback_handler H exch API_KEY API_SECRET req w = (res, calls, w')"
  shows "(qtruthy (map_of (query req) ''hmac'') \<and>
          \<not> strict_eq (map_of (query req) ''hmac'') (Some (H secret (hmac_message (query req)))) \<longrightarrow>
            calls = [] \<and> w' = w
            \<and> (\<exists>n e. res = Answered \<lparr> status = n, body = ErrorBody e \<rparr>
                      \<and> (n = 400 \<or> n = 500 \<or> n = 403))
            \<and> (well_formed_callback API_KEY API_SECRET req
                 \<and> strict_eq (map_of (query req) ''state'') (storedNonce_of req) \<longrightarrow>
                 res = Answered \<lparr> status = 403, body = ErrorBody ''Invalid HMAC'' \<rparr>))
       \<and> (distinct (map fst (query req)) \<longrightarrow> hmac_message (query req) = signed_message (query req))
       \<and> (\<not> qtruthy (map_of (query req) ''hmac'') \<longrightarrow>
            callback_handler H' exch API_KEY API_SECRET req w = (res, calls, w'))"
proof -
  have bad: "calls = [] \<and> w' = w
            \<and> (\<exists>n e. res = Answered \<lparr> status = n, body = ErrorBody e \<rparr>
                      \<and> (n = 400 \<or> n = 500 \<or> n = 403))
            \<and> (well_formed_callback API_KEY API_SECRET req
                 \<and> strict_eq (map_of (query req) ''state'') (storedNonce_of req) \<longrightarrow>
                 res = Answered \<lparr> status = 403, body = ErrorBody ''Invalid HMAC'' \<rparr>)"
    if t: "qtruthy (map_of (query req) ''hmac'')"
      and ne: "\<not> strict_eq (map_of (query req) ''hmac'') (Some (H secret (hmac_message (query req))))"
  proof -
    from ne assms(1)
    have "\<forall>s. API_SECRET = Some s \<longrightarrow>
            \<not> strict_eq (map_of (query req) ''hmac'') (Some (H s (hmac_message (query req))))"
      by simp
    with t have "\<exists>n e. callback_handler H exch API_KEY API_SECRET req w = reject n e w \<and>
           (n = 400 \<or> n = 500 \<or> n = 403) \<and>
           (well_formed_callback API_KEY API_SECRET req
              \<and> strict_eq (map_of (query req) ''state'') (storedNonce_of req)
              \<longrightarrow> n = 403 \<and> e = ''Invalid HMAC'')"
      by (rule callback_hmac_mismatch)
    then obtain n e where r: "callback_handler H exch API_KEY API_SECRET req w = reject n e w"
      and st: "n = 400 \<or> n = 500 \<or> n = 403"
      and wf: "well_formed_callback API_KEY API_SECRET req
                 \<and> strict_eq (map_of (query req) ''state'') (storedNonce_of req)
               \<longrightarrow> n = 403 \<and> e = ''Invalid HMAC''"
      by blast
    from callback_rejected[OF assms(2) r] st wf show ?thesis by auto
  qed
  have msg: "hmac_message (query req) = signed_message (query req)" if "distinct (map fst (query req))"
    using that by (rule hmac_message_is_signed_message)
  have skip: "callback_handler H' exch API_KEY API_SECRET req w = (res, calls, w')"
    if "\<not> qtruthy (map_of (query req) ''hmac'')"
    using callback_no_hmac[OF that, of H' exch API_KEY API_SECRET w H] assms(2) by simp
  from bad msg skip show ?thesis by blast
qed

theorem callback_hmac_guard_witness:
  "signed_message (query tampered_callback) = ''code=c1&shop=s.example&state=abc''
   \<and> callback_handler stub_mac granting_exchange (Some ''key'') (Some ''secret'') tampered_callback ()
       = (Answered \<lparr> status = 403, body = ErrorBody ''Invalid HMAC'' \<rparr>, [], ())
   \<and> callback_handler zero_mac granting_exchange (Some ''key'') (Some ''secret'') forged_callback ()
       = callback_handler stub_mac granting_exchange (Some ''key'') (Some ''secret'') forged_callback ()"
proof -
  obtain res calls w' where
    e: "callback_handler stub_mac granting_exchange (Some ''key'') (Some ''secret'') tampered_callback ()
          = (res, calls, w')"
    using prod_cases3 by blast
  have t: "qtruthy (map_of (query tampered_callback) ''hmac'')" by code_simp
  have ne: "\<not> strict_eq (map_of (query tampered_callback) ''hmac'')
              (Some (stub_mac ''secret'' (hmac_message (query tampered_callback))))" by code_simp
  have wf: "well_formed_callback (Some ''key'') (Some ''secret'') tampered_callback" by code_simp
  have st: "strict_eq (map_of (query tampered_callback) ''state'') (storedNonce_of tampered_callback)"
    by code_simp
  have d: "distinct (map fst (query tampered_callback))" by code_simp
  have hm: "hmac_message (query tampered_callback) = ''code=c1&shop=s.example&state=abc''" by code_simp
  from callback_hmac_guard[OF refl e] t ne wf st d hm
  have 1: "signed_message (query tampered_callback) = ''code=c1&shop=s.example&state=abc''"
    and "calls = [] \<and> res = Answered \<lparr> status = 403, body = ErrorBody ''Invalid HMAC'' \<rparr>"
    by auto
  with e have 2: "callback_handler stub_mac granting_exchange (Some ''key'') (Some ''secret'')
                    tampered_callback ()
                  = (Answered \<lparr> status = 403, body = ErrorBody ''Invalid HMAC'' \<rparr>, [], ())"
    by simp
  obtain res2 calls2 w2 where
    ef: "callback_handler stub_mac granting_exchange (Some ''key'') (Some ''secret'') forged_callback ()
           = (res2, calls2, w2)"
    using prod_cases3 by blast
  have nh: "\<not> qtruthy (map_of (query forged_callback) ''hmac'')" by code_simp
  from callback_hmac_guard[OF refl ef, of zero_mac] nh ef
  have 3: "callback_handler zero_mac granting_exchange (Some ''key'') (Some ''secret'') forged_callback ()
             = callback_handler stub_mac granting_exchange (Some ''key'') (Some ''secret'')
                 forged_callback ()"
    by simp
  from 1 2 3 show ?thesis by blast
qed

text \<open>
  An \<open>hmac\<close> parameter that is present but empty is falsy: the check is skipped and the
  code is exchanged. And a tampered callback without \<open>code\<close> is answered 400, not 403.
\<close>

theorem callback_hmac_guard_counterexample:
  "map_of (query empty_hmac_callback) ''hmac'' = Some (QStr [])
   \<and> stub_mac ''secret'' (hmac_message (query empty_hmac_callback)) = ''secret:code=c1&shop=s.example&state=abc''
   \<and> callback_handler stub_mac granting_exchange (Some ''key'') (Some ''secret'') empty_hmac_callback ()
       = (Redirected
            [''shopify_access_token=shpat_1; Path=/; HttpOnly; Secure; SameSite=Lax; Max-Age=31536000'',
             ''shopify_shop=s.example; Path=/; HttpOnly; Secure; SameSite=Lax; Max-Age=31536000'',
             ''shopify_nonce=; Path=/; HttpOnly; Secure; SameSite=Lax; Max-Age=0'']
            ''/'',
          [\<lparr> token_url = ''https://s.example/admin/oauth/access_token'', client_id = ''key'',
              client_secret = ''secret'', auth_code = QStr ''c1'' \<rparr>],
          ())
   \<and> callback_handler stub_mac granting_exchange (Some ''key'') (Some ''secret'') incomplete_callback ()
       = (Answered \<lparr> status = 400, body = ErrorBody ''Missing required parameters'' \<rparr>, [], ())"
  by code_simp

section \<open>Properties of the diff computation\<close>

subsection \<open>Decimal numerals and the built-ins\<close>

lemma digit_char_props:
  assumes "n < 10"
  shows "is_digit (''0123456789'' ! n)" and "digit_value (''0123456789'' ! n) = n"
proof -
  from assms have "n \<in> {0, 1, 2, 3, 4, 5, 6, 7, 8, 9}" by auto
  then show "is_digit (''0123456789'' ! n)" and "digit_value (''0123456789'' ! n) = n"
    by (auto simp: is_digit_def digit_value_def less_eq_char_def)
qed

lemma nat_toString_digits:
  "nat_toString n \<noteq> [] \<and> list_all is_digit (nat_toString n) \<and>
   foldl (\<lambda>a c. 10 * a + digit_value c) 0 (nat_toString n) = n"
proof (induction n rule: nat_toString.induct)
  case (1 n)
  show ?case
  proof (cases "n < 10")
    case True
    then show ?thesis by (simp add: nat_toString.simps[of n] digit_char_props)
  next
    case False
    have m: "n mod 10 < 10" by simp
    from False 1 have IH: "nat_toString (n div 10) \<noteq> [] \<and> list_all is_digit (nat_toString (n div 10)) \<and>
        foldl (\<lambda>a c. 10 * a + digit_value c) 0 (nat_toString (n div 10)) = n div 10" by simp
    with False show ?thesis
      by (simp add: nat_toString.simps[of n] digit_char_props[OF m])
  qed
qed

lemma nat_toString_inj: "nat_toString m = nat_toString n \<Longrightarrow> m = n"
  by (metis nat_toString_digits)

lemma nearest_double_safe: "n \<le> 2 ^ 53 \<Longrightarrow> nearest_double n = Some n"
  by (simp add: nearest_double_def)

lemma parseInt10_digits:
  assumes "is_digit c" and "list_all is_digit cs"
    and "foldl (\<lambda>a c. 10 * a + digit_value c) 0 (c # cs) \<le> 2 ^ 53"
  shows "parseInt10 (c # cs) = Num (int (foldl (\<lambda>a c. 10 * a + digit_value c) 0 (c # cs)))"
proof -
  have nw: "\<not> js_whitespace c" and nm: "c \<noteq> CHR ''-''" and np: "c \<noteq> CHR ''+''"
    using assms(1) by (auto simp: is_digit_def js_whitespace_def less_eq_char_def)
  have tw: "takeWhile is_digit cs = cs"
    using assms(2) by (simp add: takeWhile_eq_all_conv list_all_iff)
  from assms(3) have nd: "nearest_double (foldl (\<lambda>a c. 10 * a + digit_value c) (digit_value c) cs)
                            = Some (foldl (\<lambda>a c. 10 * a + digit_value c) (digit_value c) cs)"
    by (simp add: nearest_double_safe)
  show ?thesis
    by (simp add: parseInt10_def Let_def nw nm np assms(1) tw nd)
qed

lemma parseInt10_nat_toString:
  assumes "int m \<le> 2 ^ 53"
  shows "parseInt10 (nat_toString m) = Num (int m)"
proof -
  obtain c cs where s: "nat_toString m = c # cs"
    using nat_toString_digits[of m] by (cases "nat_toString m") auto
  from nat_toString_digits[of m] s have d: "is_digit c" "list_all is_digit cs"
    and v: "foldl (\<lambda>a c. 10 * a + digit_value c) 0 (c # cs) = m" by simp_all
  from assms have "m \<le> 2 ^ 53" by (metis of_nat_le_iff of_nat_numeral of_nat_power)
  with v have "foldl (\<lambda>a c. 10 * a + digit_value c) 0 (c # cs) \<le> 2 ^ 53" by simp
  from parseInt10_digits[OF d this] v s show ?thesis by (simp only:)
qed

lemma decimal_on_safe_instance: "decimal_on_safe decimal_text parseInt10"
  by (simp add: decimal_on_safe_def decimal_text_def parseInt10_nat_toString)

lemma parseInt10_07: "parseInt10 ''07'' = Num 7"
proof -
  have "parseInt10 (CHR ''0'' # ''7'') = Num (int (foldl (\<lambda>a c. 10 * a + digit_value c) 0 (CHR ''0'' # ''7'')))"
    by (rule parseInt10_digits) (simp_all add: is_digit_def digit_value_def less_eq_char_def)
  then show ?thesis by (simp add: digit_value_def)
qed

lemma parseInt10_12: "parseInt10 ''12'' = Num 12"
proof -
  have "parseInt10 (CHR ''1'' # ''2'') = Num (int (foldl (\<lambda>a c. 10 * a + digit_value c) 0 (CHR ''1'' # ''2'')))"
    by (rule parseInt10_digits) (simp_all add: is_digit_def digit_value_def less_eq_char_def)
  then show ?thesis by (simp add: digit_value_def)
qed

text \<open>Beyond \<open>2^53\<close> the reading is rounded, as the double of the page is.\<close>

lemma bit_length_example: "bit_length 9007199254740993 = 54"
  by (simp add: bit_length.simps)

lemma nearest_double_example: "nearest_double 9007199254740993 = Some 9007199254740992"
  by (simp add: nearest_double_def bit_length_example Let_def)

lemma nearest_double_example2: "nearest_double 9007199254740995 = Some 9007199254740996"
proof -
  have "bit_length 9007199254740995 = 54" by (simp add: bit_length.simps)
  then show ?thesis by (simp add: nearest_double_def Let_def)
qed

lemma parseInt10_rounds: "parseInt10 ''9007199254740993'' = Num 9007199254740992"
proof -
  have d: "foldl (\<lambda>n c. 10 * n + digit_value c) 0 ''9007199254740993'' = 9007199254740993"
    by (simp add: digit_value_def)
  have w: "dropWhile js_whitespace ''9007199254740993'' = ''9007199254740993''"
    by (simp add: js_whitespace_def)
  have t: "takeWhile is_digit ''9007199254740993'' = ''9007199254740993''"
    by (simp add: is_digit_def less_eq_char_def)
  show ?thesis
    unfolding parseInt10_def w by (simp add: Let_def t d nearest_double_example del: foldl_Cons takeWhile.simps)
qed

subsection \<open>Changes are decided on text\<close>

lemma foldl_push_change:
  "foldl (push_change ts pi sv) acc ps = acc @ foldl (push_change ts pi sv) [] ps"
proof (induction ps arbitrary: acc)
  case Nil
  then show ?case by simp
next
  case (Cons p ps)
  have step: "push_change ts pi sv acc p = acc @ push_change ts pi sv [] p" for acc
    by (simp add: push_change_def Let_def split: option.splits)
  show ?case
    using Cons.IH[of "push_change ts pi sv acc p"] Cons.IH[of "push_change ts pi sv [] p"] step[of acc]
    by simp
qed

lemma changes_Cons: "changes ts pi (p # ps) sv = changes ts pi [p] sv @ changes ts pi ps sv"
  using foldl_push_change[of ts pi sv "push_change ts pi sv [] p" ps] by (simp add: changes_def)

lemma changes_concat: "changes ts pi ps sv = concat (map (\<lambda>p. changes ts pi [p] sv) ps)"
proof (induction ps)
  case Nil
  then show ?case by (simp add: changes_def)
next
  case (Cons p ps)
  then show ?case using changes_Cons[of ts pi p ps sv] by simp
qed

lemma changes_single:
  "changes ts pi [p] sv =
     (case sv (variantId p) of
        None \<Rightarrow> []
      | Some cv \<Rightarrow> if cv \<noteq> [] \<and> cv \<noteq> ts (currentStock p)
                   then [\<lparr> change_item = itemId p, change_sku = sku p,
                            oldValue = currentStock p, newValue = pi cv \<rparr>]
                   else [])"
  by (auto simp: changes_def push_change_def Let_def split: option.splits)

text \<open>
  Claim C4, as the page computes it, for whatever the two built-ins compute. Each record
  is decided on its own, in list order, and a record yields a \<open>StockChange\<close> exactly when
  its edit exists, is not empty and differs as text from \<open>currentStock.toString()\<close>; the
  change carries \<open>parseInt\<close> of the edit. An edit equal to \<open>currentStock.toString()\<close>
  yields none, however it was reached. When the built-ins are the decimal ones up to
  \<open>2^53\<close>, the stock lies between 0 and \<open>2^53\<close> and the edit is the decimal numeral,
  without leading zeros, of a number up to \<open>2^53\<close>, differing as text is the same as
  parsing to a different value.
\<close>

theorem changes_by_text:
  "changes toString parseInt products stockValues
     = concat (map (\<lambda>p. changes toString parseInt [p] stockValues) products)
   \<and> (changes toString parseInt [p] stockValues \<noteq> [] \<longleftrightarrow>
        (\<exists>cv. stockValues (variantId p) = Some cv \<and> cv \<noteq> [] \<and> cv \<noteq> toString (currentStock p)))
   \<and> (stockValues (variantId p) = Some cv \<and> cv \<noteq> [] \<and> cv \<noteq> toString (currentStock p) \<longrightarrow>
        changes toString parseInt [p] stockValues
          = [\<lparr> change_item = itemId p, change_sku = sku p,
               oldValue = currentStock p, newValue = parseInt cv \<rparr>])
   \<and> (stockValues (variantId p) = Some (toString (currentStock p)) \<longrightarrow>
        changes toString parseInt [p] stockValues = [])
   \<and> (decimal_on_safe toString parseInt \<and> 0 \<le> currentStock p \<and> currentStock p \<le> 2 ^ 53 \<and>
      int m \<le> 2 ^ 53 \<and> stockValues (variantId p) = Some (nat_toString m) \<longrightarrow>
        (changes toString parseInt [p] stockValues \<noteq> [] \<longleftrightarrow>
           parseInt (nat_toString m) \<noteq> Num (currentStock p)))"
proof -
  have 1: "changes toString parseInt products stockValues
             = concat (map (\<lambda>p. changes toString parseInt [p] stockValues) products)"
    by (rule changes_concat)
  have 2: "changes toString parseInt [p] stockValues \<noteq> [] \<longleftrightarrow>
        (\<exists>cv. stockValues (variantId p) = Some cv \<and> cv \<noteq> [] \<and> cv \<noteq> toString (currentStock p))"
    by (auto simp: changes_single split: option.splits)
  have 3: "changes toString parseInt [p] stockValues
             = [\<lparr> change_item = itemId p, change_sku = sku p,
                  oldValue = currentStock p, newValue = parseInt cv \<rparr>]"
    if "stockValues (variantId p) = Some cv \<and> cv \<noteq> [] \<and> cv \<noteq> toString (currentStock p)"
    using that by (simp add: changes_single)
  have 4: "changes toString parseInt [p] stockValues = []"
    if "stockValues (variantId p) = Some (toString (currentStock p))"
    using that by (simp add: changes_single)
  have 5: "changes toString parseInt [p] stockValues \<noteq> [] \<longleftrightarrow>
             parseInt (nat_toString m) \<noteq> Num (currentStock p)"
    if h: "decimal_on_safe toString parseInt \<and> 0 \<le> currentStock p \<and> currentStock p \<le> 2 ^ 53 \<and>
           int m \<le> 2 ^ 53 \<and> stockValues (variantId p) = Some (nat_toString m)"
  proof -
    from h have ts: "toString (currentStock p) = nat_toString (nat (currentStock p))"
      and pi: "parseInt (nat_toString m) = Num (int m)"
      unfolding decimal_on_safe_def by blast+
    from h have "changes toString parseInt [p] stockValues \<noteq> [] \<longleftrightarrow>
                   nat_toString m \<noteq> [] \<and> nat_toString m \<noteq> toString (currentStock p)"
      by (simp add: 2)
    also have "\<dots> \<longleftrightarrow> nat_toString m \<noteq> nat_toString (nat (currentStock p))"
      using nat_toString_digits[of m] ts by simp
    also have "\<dots> \<longleftrightarrow> m \<noteq> nat (currentStock p)"
      using nat_toString_inj by blast
    also have "\<dots> \<longleftrightarrow> int m \<noteq> currentStock p" using h by auto
    also have "\<dots> \<longleftrightarrow> parseInt (nat_toString m) \<noteq> Num (currentStock p)" by (simp add: pi)
    finally show ?thesis .
  qed
  from 1 2 3 4 5 show ?thesis by blast
qed

text \<open>Typing 12 over a stock of 7 yields one change; typing 7 again yields none.\<close>

theorem changes_by_text_witness:
  "decimal_on_safe decimal_text parseInt10
   \<and> changes decimal_text parseInt10 [oak_record]
        (handleStockChange ''v1'' ''12'' (fetched_values decimal_text [oak_record]))
     = [\<lparr> change_item = ''item-v1'', change_sku = ''OAK-2'', oldValue = 7, newValue = Num 12 \<rparr>]
   \<and> parseInt10 (nat_toString 12) \<noteq> Num (currentStock oak_record)
   \<and> changes decimal_text parseInt10 [oak_record]
        (handleStockChange ''v1'' ''7''
           (handleStockChange ''v1'' ''12'' (fetched_values decimal_text [oak_record])))
     = []"
proof -
  let ?sv = "handleStockChange ''v1'' ''12'' (fetched_values decimal_text [oak_record])"
  let ?again = "handleStockChange ''v1'' ''7'' ?sv"
  have t12: "nat_toString 12 = ''12''" by code_simp
  have a: "?sv (variantId oak_record) = Some ''12'' \<and> ''12'' \<noteq> []
           \<and> ''12'' \<noteq> decimal_text (currentStock oak_record)"
    by code_simp
  have b: "?again (variantId oak_record) = Some (decimal_text (currentStock oak_record))"
    by code_simp
  have f: "itemId oak_record = ''item-v1''" "sku oak_record = ''OAK-2''" "currentStock oak_record = 7"
    by (simp_all add: oak_record_def)
  note inst = changes_by_text[of decimal_text parseInt10 "[oak_record]" ?sv oak_record "''12''" 12]
  from inst a parseInt10_12 f
  have 1: "changes decimal_text parseInt10 [oak_record] ?sv
     = [\<lparr> change_item = ''item-v1'', change_sku = ''OAK-2'', oldValue = 7, newValue = Num 12 \<rparr>]"
    by simp
  from a t12 have e: "?sv (variantId oak_record) = Some (nat_toString 12)" by simp
  have bounds: "0 \<le> currentStock oak_record \<and> currentStock oak_record \<le> 2 ^ 53 \<and> int 12 \<le> 2 ^ 53"
    by (simp add: f)
  from inst decimal_on_safe_instance bounds e 1
  have 2: "parseInt10 (nat_toString 12) \<noteq> Num (currentStock oak_record)" by simp
  from changes_by_text[of decimal_text parseInt10 "[oak_record]" ?again oak_record "''7''" 7] b
  have 3: "changes decimal_text parseInt10 [oak_record] ?again = []" by blast
  from decimal_on_safe_instance 1 2 3 show ?thesis by blast
qed

text \<open>
  The comparison is on text, not on numbers: the edit \<open>07\<close>, which the digit filter of
  \<open>handleStockChange\<close> accepts, parses to the current stock 7 and still yields a change
  from 7 to 7.
\<close>

theorem changes_leading_zero_counterexample:
  "handleStockChange ''v1'' ''07'' (fetched_values decimal_text [oak_record]) ''v1'' = Some ''07''
   \<and> decimal_text (currentStock oak_record) = ''7''
   \<and> parseInt10 ''07'' = Num (currentStock oak_record)
   \<and> changes decimal_text parseInt10 [oak_record]
        (handleStockChange ''v1'' ''07'' (fetched_values decimal_text [oak_record]))
       = [\<lparr> change_item = ''item-v1'', change_sku = ''OAK-2'', oldValue = 7, newValue = Num 7 \<rparr>]"
proof -
  let ?sv = "handleStockChange ''v1'' ''07'' (fetched_values decimal_text [oak_record])"
  have a: "?sv ''v1'' = Some ''07''" by code_simp
  have t: "decimal_text (currentStock oak_record) = ''7''" by code_simp
  have f: "variantId oak_record = ''v1''" "itemId oak_record = ''item-v1''"
    "sku oak_record = ''OAK-2''" "currentStock oak_record = 7"
    by (simp_all add: oak_record_def)
  have c: "changes decimal_text parseInt10 [oak_record] ?sv
       = [\<lparr> change_item = ''item-v1'', change_sku = ''OAK-2'', oldValue = 7, newValue = Num 7 \<rparr>]"
    unfolding changes_single using a t by (simp add: f parseInt10_07)
  from a t c parseInt10_07 f show ?thesis by simp
qed

end
